theory Spec2Isabelle
  imports Complex_Main "HOL-Library.Multiset"
begin

section \<open>JavaScript values that reach the pipeline\<close>

text \<open>
  The parser and the prioritizer both work on the result of \<^verbatim>\<open>JSON.parse\<close>.  A parsed
  document is a tree of the six JSON kinds; an object keeps its members in textual order
  (a later member with the same key wins, as in \<^verbatim>\<open>JSON.parse\<close>).  Numbers are the
  rational values of the doubles read.  A JavaScript value that may also be
  \<^verbatim>\<open>undefined\<close> is a \<open>json option\<close>, with \<open>None\<close> for \<^verbatim>\<open>undefined\<close>.
\<close>

datatype json =
    JNull
  | JBool bool
  | JNum rat
  | JStr string
  | JArr "json list"
  | JObj "(string \<times> json) list"

type_synonym jsval = "json option"

text \<open>
  Errors are values.  \<open>ReadError\<close> is what \<^verbatim>\<open>fs.readFileSync\<close> throws,
  \<open>SyntaxError\<close> what \<^verbatim>\<open>JSON.parse\<close> throws, \<open>TypeError\<close> what a property read on
  \<^verbatim>\<open>null\<close>/\<^verbatim>\<open>undefined\<close> or a call of a non-function throws, \<open>ApiError s\<close> a
  rejected remote call with its optional HTTP status, \<open>Error m\<close> is
  \<^verbatim>\<open>new Error(m)\<close>, and \<open>ParseFailure e\<close> is the error thrown by the parser's handler,
  \<^verbatim>\<open>new Error(`Failed to parse findings file: ${e.message}`)\<close>, kept with its cause.
\<close>

datatype error =
    ReadError
  | SyntaxError
  | TypeError
  | ApiError "nat option"
  | Error string
  | ParseFailure error

definition and_then :: "error + 'a \<Rightarrow> ('a \<Rightarrow> error + 'b) \<Rightarrow> error + 'b" where
  "and_then m k = (case m of Inl e \<Rightarrow> Inl e | Inr v \<Rightarrow> k v)"

text \<open>JavaScript truthiness, as used by \<^verbatim>\<open>!x\<close> and \<^verbatim>\<open>x || y\<close>.\<close>

fun truthy :: "jsval \<Rightarrow> bool" where
  "truthy None = False"
| "truthy (Some JNull) = False"
| "truthy (Some (JBool b)) = b"
| "truthy (Some (JNum q)) = (q \<noteq> 0)"
| "truthy (Some (JStr s)) = (s \<noteq> [])"
| "truthy (Some (JArr xs)) = True"
| "truthy (Some (JObj kvs)) = True"

text \<open>\<^verbatim>\<open>Array.isArray\<close>, and the elements of a value that is an array.\<close>

fun isArray :: "jsval \<Rightarrow> bool" where
  "isArray (Some (JArr xs)) = True"
| "isArray v = False"

fun elements :: "jsval \<Rightarrow> json list" where
  "elements (Some (JArr xs)) = xs"
| "elements v = []"

text \<open>
  \<open>getp v k\<close> is the property read \<^verbatim>\<open>v.k\<close> for the keys this program reads
  (\<^verbatim>\<open>results\<close>, \<^verbatim>\<open>check_id\<close>, \<^verbatim>\<open>path\<close>, \<^verbatim>\<open>start\<close>, \<^verbatim>\<open>line\<close>, \<^verbatim>\<open>extra\<close>,
  \<^verbatim>\<open>message\<close>, \<^verbatim>\<open>severity\<close>, \<^verbatim>\<open>lines\<close>, \<^verbatim>\<open>risks\<close>, \<^verbatim>\<open>topRisks\<close>,
  \<^verbatim>\<open>originalId\<close>, \<^verbatim>\<open>title\<close>): none of them is a property of a boolean, a number,
  a string or an array, so only an object can hold one.  Reading from \<^verbatim>\<open>null\<close> or
  \<^verbatim>\<open>undefined\<close> throws.
\<close>

fun getp :: "json \<Rightarrow> string \<Rightarrow> error + jsval" where
  "getp JNull k = Inl TypeError"
| "getp (JObj kvs) k = Inr (map_of (rev kvs) k)"
| "getp (JBool b) k = Inr None"
| "getp (JNum q) k = Inr None"
| "getp (JStr s) k = Inr None"
| "getp (JArr xs) k = Inr None"

fun getv :: "jsval \<Rightarrow> string \<Rightarrow> error + jsval" where
  "getv None k = Inl TypeError"
| "getv (Some v) k = getp v k"

text \<open>\<^verbatim>\<open>xs.map(f)\<close> where \<open>f\<close> may throw: the first exception aborts the whole map.\<close>

fun map_throwing :: "('a \<Rightarrow> error + 'b) \<Rightarrow> 'a list \<Rightarrow> error + 'b list" where
  "map_throwing f [] = Inr []"
| "map_throwing f (x # xs) =
     (case f x of
        Inl e \<Rightarrow> Inl e
      | Inr y \<Rightarrow> (case map_throwing f xs of Inl e \<Rightarrow> Inl e | Inr ys \<Rightarrow> Inr (y # ys)))"


section \<open>The finding parser (\<^verbatim>\<open>parseFindings\<close>)\<close>

text \<open>
  The parser copies six values out of each scanner result without checking their types,
  so the fields of the record it builds are JavaScript values.
\<close>

record Finding =
  ruleId :: jsval
  "file" :: jsval
  line :: jsval
  message :: jsval
  severity :: jsval
  codeSnippet :: jsval

text \<open>\<^verbatim>\<open>r.a.b\<close>\<close>

definition getp2 :: "json \<Rightarrow> string \<Rightarrow> string \<Rightarrow> error + jsval" where
  "getp2 r a b = and_then (getp r a) (\<lambda>inner. getv inner b)"

text \<open>The arrow function given to \<^verbatim>\<open>results.map\<close>; fields are read in source order.\<close>

definition toFinding :: "json \<Rightarrow> error + Finding" where
  "toFinding r =
     and_then (getp r ''check_id'') (\<lambda>cid.
     and_then (getp r ''path'') (\<lambda>p.
     and_then (getp2 r ''start'' ''line'') (\<lambda>lineNo.
     and_then (getp2 r ''extra'' ''message'') (\<lambda>msg.
     and_then (getp2 r ''extra'' ''severity'') (\<lambda>sev.
     and_then (getp2 r ''extra'' ''lines'') (\<lambda>lns.
       Inr \<lparr> ruleId = cid, file = p, line = lineNo, message = msg,
             severity = sev, codeSnippet = lns \<rparr>))))))"

definition invalidFormat :: error where
  "invalidFormat = Error ''Invalid Semgrep JSON format: \"results\" array missing.''"

text \<open>
  The body of the \<^verbatim>\<open>try\<close> block.  \<open>readFileSync\<close> and \<open>jsonParse\<close> stand for
  \<^verbatim>\<open>fs.readFileSync(_, 'utf-8')\<close> and \<^verbatim>\<open>JSON.parse\<close>; \<open>None\<close> is their exception.
\<close>

definition parseBody ::
  "(string \<Rightarrow> string option) \<Rightarrow> (string \<Rightarrow> json option) \<Rightarrow> string \<Rightarrow> error + Finding list" where
  "parseBody readFileSync jsonParse filePath =
     (case readFileSync filePath of
        None \<Rightarrow> Inl ReadError
      | Some rawData \<Rightarrow>
          (case jsonParse rawData of
             None \<Rightarrow> Inl SyntaxError
           | Some semgrepOutput \<Rightarrow>
               and_then (getp semgrepOutput ''results'') (\<lambda>results.
                 if \<not> truthy results \<or> \<not> isArray results then Inl invalidFormat
                 else map_throwing toFinding (elements results))))"

text \<open>The whole function: every exception of the body is rethrown wrapped.\<close>

definition parseFindings ::
  "(string \<Rightarrow> string option) \<Rightarrow> (string \<Rightarrow> json option) \<Rightarrow> string \<Rightarrow> error + Finding list" where
  "parseFindings readFileSync jsonParse filePath =
     (case parseBody readFileSync jsonParse filePath of
        Inl e \<Rightarrow> Inl (ParseFailure e)
      | Inr fs \<Rightarrow> Inr fs)"


text \<open>
  A small file system and the documents its files parse to: a scan with two results, a
  file that is not JSON, the document \<^verbatim>\<open>{"foo": []}\<close> and the document
  \<^verbatim>\<open>null\<close>.
\<close>

definition sampleFiles :: "string \<Rightarrow> string option" where
  "sampleFiles path =
     (if path = ''findings.json'' then Some ''<two results>''
      else if path = ''broken.json'' then Some ''{''
      else if path = ''foo.json'' then Some ''{\"foo\": []}''
      else if path = ''null.json'' then Some ''null''
      else None)"

definition sampleResult :: "string \<Rightarrow> string \<Rightarrow> rat \<Rightarrow> json" where
  "sampleResult rule path lineNo =
     JObj [ (''check_id'', JStr rule), (''path'', JStr path),
            (''start'', JObj [(''line'', JNum lineNo), (''col'', JNum 1)]),
            (''extra'', JObj [(''message'', JStr ''found''), (''severity'', JStr ''ERROR''),
                             (''lines'', JStr ''eval(x)'')]) ]"

definition sampleParse :: "string \<Rightarrow> json option" where
  "sampleParse raw =
     (if raw = ''<two results>''
      then Some (JObj [(''results'',
                   JArr [sampleResult ''js.eval'' ''a.ts'' 3, sampleResult ''js.sqli'' ''b.ts'' 7])])
      else if raw = ''{\"foo\": []}'' then Some (JObj [(''foo'', JArr [])])
      else if raw = ''null'' then Some JNull
      else None)"


section \<open>The risk prioritizer (\<^verbatim>\<open>prioritizeRisks\<close>)\<close>

subsection \<open>Data\<close>

text \<open>
  Modelled from the spec: the declarations of \<^verbatim>\<open>EnrichedFinding\<close>, \<^verbatim>\<open>RiskAnalysis\<close>
  and \<^verbatim>\<open>AnalysisResult\<close> (\<^verbatim>\<open>types.ts\<close>) are not among the sources.  A well-formed
  enriched finding has string fields, an optional snippet and a finite numeric score;
  the score is the rational value of the double.  The fallback flag is an optional
  member of the result: \<^verbatim>\<open>fallbackRanking\<close> returns a result without it.
\<close>

record EnrichedFinding =
  ruleId :: string
  "file" :: string
  line :: nat
  message :: string
  severity :: string
  codeSnippet :: "string option"
  exposureScore :: rat

text \<open>
  What \<^verbatim>\<open>batch[risk.originalId] || batch[0]\<close> can evaluate to: \<^verbatim>\<open>undefined\<close>, one of
  the batch's findings, the array's \<^verbatim>\<open>length\<close>, or a member the array inherits from its
  prototype chain (a method such as \<^verbatim>\<open>map\<close>, or \<^verbatim>\<open>constructor\<close>).
\<close>

datatype origin =
    Undefined
  | FindingRef EnrichedFinding
  | LengthValue nat
  | Inherited string

text \<open>
  A risk object: its own named properties other than \<^verbatim>\<open>originalFinding\<close>, in the order
  written (a later one wins), and the \<^verbatim>\<open>originalFinding\<close> property.  The index-keyed
  properties that spreading a string or an array would copy are not kept: nothing reads
  them.
\<close>

record RiskAnalysis =
  props :: "(string \<times> json) list"
  originalFinding :: origin

definition rprop :: "RiskAnalysis \<Rightarrow> string \<Rightarrow> jsval" where
  "rprop r k = map_of (rev (props r)) k"

record AnalysisResult =
  topRisks :: "RiskAnalysis list"
  isFallback :: "bool option"

text \<open>One element of the array serialised into the prompt: id, rule, file, line, code, msg.\<close>

datatype prompt_finding = PromptFinding nat string string nat string string

text \<open>
  The answer to one \<^verbatim>\<open>chat.completions.create\<close> call: a rejection (authentication,
  quota, not found, network, or a completion without \<^verbatim>\<open>choices\<close>), or the value of
  \<^verbatim>\<open>completion.choices[0]?.message?.content\<close>, \<open>None\<close> when it is \<^verbatim>\<open>null\<close> or
  \<^verbatim>\<open>undefined\<close>.
\<close>

datatype reply = Rejected error | Completion "string option"

text \<open>
  Everything outside the function that it reads: the credential in the process
  environment, the remote service (asked with the batch's position and its prompt
  payload), \<^verbatim>\<open>JSON.parse\<close>, and the names of the members an array inherits in the
  running engine (\<^verbatim>\<open>map\<close>, \<^verbatim>\<open>constructor\<close>, ...), which depend on its version.
  Console output is not part of the model; constructing the client sends nothing.
\<close>

record world =
  GROQ_API_KEY :: "string option"
  remote :: "nat \<Rightarrow> prompt_finding list \<Rightarrow> reply"
  jsonParse :: "string \<Rightarrow> json option"
  protoNames :: "string \<Rightarrow> bool"

subsection \<open>Sorting in place\<close>

text \<open>
  \<^verbatim>\<open>Array.prototype.sort\<close> with a comparator is stable and reorders the receiver itself.
  For a consistent comparator its result is the one of a stable insertion: an element
  goes in front of the first element it does not compare greater than.
\<close>

fun insert_by :: "('a \<Rightarrow> 'a \<Rightarrow> rat) \<Rightarrow> 'a \<Rightarrow> 'a list \<Rightarrow> 'a list" where
  "insert_by cmp x [] = [x]"
| "insert_by cmp x (y # ys) =
     (if cmp x y \<le> 0 then x # y # ys else y # insert_by cmp x ys)"

definition sort_js :: "('a \<Rightarrow> 'a \<Rightarrow> rat) \<Rightarrow> 'a list \<Rightarrow> 'a list" where
  "sort_js cmp xs = foldr (insert_by cmp) xs []"

text \<open>The comparator \<^verbatim>\<open>(a, b) => b.exposureScore - a.exposureScore\<close>.\<close>

definition byExposure :: "EnrichedFinding \<Rightarrow> EnrichedFinding \<Rightarrow> rat" where
  "byExposure a b = exposureScore b - exposureScore a"

subsection \<open>The deterministic fallback (\<^verbatim>\<open>fallbackRanking\<close>)\<close>

definition fallbackRisk :: "EnrichedFinding \<Rightarrow> RiskAnalysis" where
  "fallbackRisk f =
     \<lparr> props =
         [ (''title'', JStr (''Potential '' @ message f)),
           (''reason'', JStr ''Detected by static analysis with high exposure score.''),
           (''impact'', JStr ''Unknown business impact (run with AI API for details).''),
           (''fix'', JStr ''Review code snippet and apply best practices.''),
           (''confidence'', JStr ''Medium'') ],
       originalFinding = FindingRef f \<rparr>"

text \<open>
  Returns the result and the state of the argument array after the call: \<^verbatim>\<open>sort\<close> has
  reordered it.
\<close>

definition fallbackRanking :: "EnrichedFinding list \<Rightarrow> AnalysisResult \<times> EnrichedFinding list" where
  "fallbackRanking findings =
     (let sorted = sort_js byExposure findings;
          top5 = map fallbackRisk (take 5 sorted)
      in (\<lparr> topRisks = top5, isFallback = None \<rparr>, sorted))"

subsection \<open>Batches and the prompt payload\<close>

definition BATCH_SIZE :: nat where
  "BATCH_SIZE = 20"

definition MAX_BATCHES :: nat where
  "MAX_BATCHES = 3"

text \<open>
  The loop \<^verbatim>\<open>for (let i = 0; i < n; i += BATCH_SIZE) batches.push(xs.slice(i, i + BATCH_SIZE))\<close>,
  started at \<open>i\<close>.
\<close>

function mkBatches :: "nat \<Rightarrow> 'a list \<Rightarrow> 'a list list" where
  "mkBatches i xs =
     (if i < length xs then take BATCH_SIZE (drop i xs) # mkBatches (i + BATCH_SIZE) xs
      else [])"
  by pat_completeness auto
termination
  by (relation "measure (\<lambda>(i, xs). length xs - i)") (auto simp: BATCH_SIZE_def)

declare mkBatches.simps [simp del]

text \<open>\<^verbatim>\<open>f.codeSnippet ? f.codeSnippet.slice(0, 300) : ''\<close>\<close>

definition promptCode :: "string option \<Rightarrow> string" where
  "promptCode snippet =
     (case snippet of
        None \<Rightarrow> []
      | Some s \<Rightarrow> if s \<noteq> [] then take 300 s else [])"

definition promptPayload :: "EnrichedFinding list \<Rightarrow> prompt_finding list" where
  "promptPayload batch =
     map (\<lambda>(i, f). PromptFinding i (ruleId f) (file f) (line f)
                     (promptCode (codeSnippet f)) (message f))
         (enumerate 0 batch)"

subsection \<open>Reading \<^verbatim>\<open>batch[risk.originalId]\<close>\<close>

text \<open>
  The subscript is turned into a property key.  What matters of the key is whether it is
  the canonical decimal form of an index (\<open>Index\<close>), some other text that came from a
  string (\<open>Name\<close>), or a text that names no property of any array (\<open>NoProperty\<close>): that
  of \<^verbatim>\<open>undefined\<close>, \<^verbatim>\<open>null\<close>, a boolean, a negative or fractional number, an object
  (\<^verbatim>\<open>[object Object]\<close>), or a joined array that is empty or contains a comma.
\<close>

datatype propkey = Index nat | Name string | NoProperty

definition isDigit :: "char \<Rightarrow> bool" where
  "isDigit c = (48 \<le> (of_char c :: nat) \<and> (of_char c :: nat) \<le> 57)"

definition canonicalIndex :: "string \<Rightarrow> bool" where
  "canonicalIndex s = (s \<noteq> [] \<and> list_all isDigit s \<and> (s = ''0'' \<or> hd s \<noteq> CHR ''0''))"

definition indexValue :: "string \<Rightarrow> nat" where
  "indexValue s = foldl (\<lambda>a c. 10 * a + (of_char c - 48)) 0 s"

text \<open>
  Converting an object to a string throws when the object has an own member
  \<^verbatim>\<open>toString\<close> (parsed JSON holds no function, so the member is not callable and
  \<^verbatim>\<open>valueOf\<close> gives no primitive); converting an array converts its elements.
\<close>

fun toStringThrows :: "json \<Rightarrow> bool" where
  "toStringThrows (JObj kvs) = (map_of kvs ''toString'' \<noteq> None)"
| "toStringThrows (JArr xs) = list_ex toStringThrows xs"
| "toStringThrows v = False"

fun keyOfJson :: "json \<Rightarrow> propkey" where
  "keyOfJson JNull = NoProperty"
| "keyOfJson (JBool b) = NoProperty"
| "keyOfJson (JNum q) =
     (if 0 \<le> q \<and> of_int \<lfloor>q\<rfloor> = q then Index (nat \<lfloor>q\<rfloor>) else NoProperty)"
| "keyOfJson (JStr s) = (if canonicalIndex s then Index (indexValue s) else Name s)"
| "keyOfJson (JArr []) = NoProperty"
| "keyOfJson (JArr [x]) = keyOfJson x"
| "keyOfJson (JArr (x # y # zs)) = NoProperty"
| "keyOfJson (JObj kvs) = NoProperty"

definition toPropertyKey :: "jsval \<Rightarrow> error + propkey" where
  "toPropertyKey v =
     (case v of
        None \<Rightarrow> Inr NoProperty
      | Some j \<Rightarrow> if toStringThrows j then Inl TypeError else Inr (keyOfJson j))"

text \<open>\<^verbatim>\<open>batch[key]\<close> for a converted key.\<close>

definition batchAt :: "(string \<Rightarrow> bool) \<Rightarrow> EnrichedFinding list \<Rightarrow> propkey \<Rightarrow> origin" where
  "batchAt inherits batch k =
     (case k of
        Index n \<Rightarrow> if n < length batch then FindingRef (batch ! n) else Undefined
      | Name s \<Rightarrow>
          if s = ''length'' then LengthValue (length batch)
          else if inherits s then Inherited s
          else Undefined
      | NoProperty \<Rightarrow> Undefined)"

text \<open>\<^verbatim>\<open>batch[0]\<close>\<close>

definition batchFirst :: "EnrichedFinding list \<Rightarrow> origin" where
  "batchFirst batch = (case batch of [] \<Rightarrow> Undefined | f # fs \<Rightarrow> FindingRef f)"

fun originTruthy :: "origin \<Rightarrow> bool" where
  "originTruthy Undefined = False"
| "originTruthy (FindingRef f) = True"
| "originTruthy (LengthValue n) = (n \<noteq> 0)"
| "originTruthy (Inherited s) = True"

subsection \<open>One batch\<close>

text \<open>The own named properties that \<^verbatim>\<open>{...risk, originalFinding: _}\<close> takes from \<open>risk\<close>.\<close>

fun spread :: "json \<Rightarrow> (string \<times> json) list" where
  "spread (JObj kvs) = filter (\<lambda>(k, v). k \<noteq> ''originalFinding'') kvs"
| "spread v = []"

text \<open>The arrow function given to \<^verbatim>\<open>.map\<close> on the risk array.\<close>

definition mapRisk :: "(string \<Rightarrow> bool) \<Rightarrow> EnrichedFinding list \<Rightarrow> json \<Rightarrow> error + RiskAnalysis" where
  "mapRisk inherits batch risk =
     and_then (getp risk ''originalId'') (\<lambda>originalId.
     and_then (toPropertyKey originalId) (\<lambda>k.
       let found = batchAt inherits batch k
       in Inr \<lparr> props = spread risk,
                originalFinding = (if originTruthy found then found else batchFirst batch) \<rparr>))"

text \<open>\<^verbatim>\<open>parsed.risks || parsed.topRisks || []\<close>\<close>

definition riskArray :: "json \<Rightarrow> error + jsval" where
  "riskArray parsed =
     and_then (getp parsed ''risks'') (\<lambda>risks.
       if truthy risks then Inr risks
       else and_then (getp parsed ''topRisks'') (\<lambda>legacy.
         if truthy legacy then Inr legacy else Inr (Some (JArr []))))"

text \<open>
  The inner \<^verbatim>\<open>try\<close> block, after the request has been answered by \<open>answer\<close>.  Calling
  \<^verbatim>\<open>.map\<close> on a value that is not an array throws.
\<close>

definition batchBody :: "world \<Rightarrow> EnrichedFinding list \<Rightarrow> reply \<Rightarrow> error + RiskAnalysis list" where
  "batchBody w batch answer =
     (case answer of
        Rejected e \<Rightarrow> Inl e
      | Completion content \<Rightarrow>
          (case content of
             None \<Rightarrow> Inr []
           | Some body \<Rightarrow>
               if body = [] then Inr []
               else (case jsonParse w body of
                       None \<Rightarrow> Inl SyntaxError
                     | Some parsed \<Rightarrow>
                         and_then (riskArray parsed) (\<lambda>arr.
                           if isArray arr
                           then map_throwing (mapRisk (protoNames w) batch) (elements arr)
                           else Inl TypeError))))"

text \<open>The async callback of \<^verbatim>\<open>batches.map\<close>: the inner \<^verbatim>\<open>catch\<close> returns \<^verbatim>\<open>[]\<close>.\<close>

definition processBatch :: "world \<Rightarrow> nat \<Rightarrow> EnrichedFinding list \<Rightarrow> RiskAnalysis list" where
  "processBatch w batchIndex batch =
     (case batchBody w batch (remote w batchIndex (promptPayload batch)) of
        Inl e \<Rightarrow> []
      | Inr risks \<Rightarrow> risks)"

subsection \<open>Merging the partial results\<close>

text \<open>
  \<^verbatim>\<open>===\<close> on two values held by different risk objects: parsed JSON shares no
  sub-object, so arrays and objects are never equal there, and primitives (including
  \<^verbatim>\<open>undefined\<close>) are equal when they are the same value.
\<close>

fun isPrimitive :: "jsval \<Rightarrow> bool" where
  "isPrimitive (Some (JArr xs)) = False"
| "isPrimitive (Some (JObj kvs)) = False"
| "isPrimitive v = True"

definition strictEq :: "jsval \<Rightarrow> jsval \<Rightarrow> bool" where
  "strictEq a b = (isPrimitive a \<and> a = b)"

text \<open>\<^verbatim>\<open>x.originalFinding.file\<close>: throws on \<^verbatim>\<open>undefined\<close>, is \<^verbatim>\<open>undefined\<close> on a
  number or an inherited member.\<close>

fun originFile :: "origin \<Rightarrow> error + string option" where
  "originFile Undefined = Inl TypeError"
| "originFile (FindingRef f) = Inr (Some (file f))"
| "originFile (LengthValue n) = Inr None"
| "originFile (Inherited s) = Inr None"

text \<open>
  The callback of \<^verbatim>\<open>findIndex\<close>, applied to the element at position \<open>j\<close> while
  \<^verbatim>\<open>filter\<close> is at position \<open>i\<close>.  At \<open>j = i\<close> both operands of the first \<^verbatim>\<open>===\<close>
  are one and the same value.  \<^verbatim>\<open>&&\<close> evaluates its right operand only when the left
  one holds.
\<close>

definition sameKey :: "nat \<times> RiskAnalysis \<Rightarrow> nat \<times> RiskAnalysis \<Rightarrow> error + bool" where
  "sameKey jt ir =
     (case (jt, ir) of ((j, t), (i, risk)) \<Rightarrow>
        if j = i \<or> strictEq (rprop t ''title'') (rprop risk ''title'')
        then and_then (originFile (originalFinding t)) (\<lambda>ft.
             and_then (originFile (originalFinding risk)) (\<lambda>fr. Inr (ft = fr)))
        else Inr False)"

text \<open>\<^verbatim>\<open>self.findIndex(p)\<close> over positions paired with elements; \<open>None\<close> is \<open>-1\<close>.\<close>

fun findIndex :: "(nat \<times> 'a \<Rightarrow> error + bool) \<Rightarrow> (nat \<times> 'a) list \<Rightarrow> error + nat option" where
  "findIndex p [] = Inr None"
| "findIndex p ((j, t) # rest) =
     (case p (j, t) of
        Inl e \<Rightarrow> Inl e
      | Inr b \<Rightarrow> if b then Inr (Some j) else findIndex p rest)"

fun filter_throwing :: "('a \<Rightarrow> error + bool) \<Rightarrow> 'a list \<Rightarrow> error + 'a list" where
  "filter_throwing p [] = Inr []"
| "filter_throwing p (x # xs) =
     (case p x of
        Inl e \<Rightarrow> Inl e
      | Inr b \<Rightarrow>
          (case filter_throwing p xs of
             Inl e \<Rightarrow> Inl e
           | Inr ys \<Rightarrow> Inr (if b then x # ys else ys)))"

text \<open>
  \<^verbatim>\<open>allRisks.filter((risk, index, self) => index === self.findIndex(t => ...))\<close>
\<close>

definition uniqueRisks :: "RiskAnalysis list \<Rightarrow> error + RiskAnalysis list" where
  "uniqueRisks allRisks =
     (let self = enumerate 0 allRisks
      in and_then
           (filter_throwing
              (\<lambda>ir. and_then (findIndex (\<lambda>jt. sameKey jt ir) self)
                              (\<lambda>found. Inr (found = Some (fst ir))))
              self)
           (\<lambda>kept. Inr (map snd kept)))"

subsection \<open>The whole function\<close>

text \<open>
  What a call leaves behind: the value returned or the error thrown, the caller's array
  after the call, and the prompt payloads sent to the remote service, in order.
\<close>

record outcome =
  returned :: "error + AnalysisResult"
  findingsAfter :: "EnrichedFinding list"
  requests :: "prompt_finding list list"

text \<open>\<^verbatim>\<open>!apiKey\<close>: the variable is unset or empty.\<close>

definition noCredential :: "world \<Rightarrow> bool" where
  "noCredential w = (case GROQ_API_KEY w of None \<Rightarrow> True | Some k \<Rightarrow> k = [])"

definition mkBatchesOf :: "EnrichedFinding list \<Rightarrow> EnrichedFinding list list" where
  "mkBatchesOf sortedFindings =
     mkBatches 0 (take (BATCH_SIZE * MAX_BATCHES) sortedFindings)"

text \<open>\<^verbatim>\<open>(await Promise.all(batchPromises)).flat()\<close>: the partial lists in batch order.\<close>

definition allRisksOf :: "world \<Rightarrow> EnrichedFinding list list \<Rightarrow> RiskAnalysis list" where
  "allRisksOf w batches = concat (map (\<lambda>(i, b). processBatch w i b) (enumerate 0 batches))"

text \<open>The outer \<^verbatim>\<open>try\<close> block, from the array as \<^verbatim>\<open>sort\<close> left it.\<close>

definition remoteAttempt :: "world \<Rightarrow> EnrichedFinding list \<Rightarrow> error + AnalysisResult" where
  "remoteAttempt w sortedFindings =
     and_then (uniqueRisks (allRisksOf w (mkBatchesOf sortedFindings))) (\<lambda>unique.
       if length unique = 0 then Inl (Error ''No risks identified by AI'')
       else Inr \<lparr> topRisks = take 10 unique, isFallback = None \<rparr>)"

definition fallbackResult :: "EnrichedFinding list \<Rightarrow> AnalysisResult \<times> EnrichedFinding list" where
  "fallbackResult findings =
     (case fallbackRanking findings of (r, after) \<Rightarrow> (r\<lparr> isFallback := Some True \<rparr>, after))"

definition prioritizeRisks :: "world \<Rightarrow> EnrichedFinding list \<Rightarrow> outcome" where
  "prioritizeRisks w findings =
     (if noCredential w then
        (case fallbackResult findings of (r, after) \<Rightarrow>
           \<lparr> returned = Inr r, findingsAfter = after, requests = [] \<rparr>)
      else
        (let sortedFindings = sort_js byExposure findings;
             sent = map promptPayload (mkBatchesOf sortedFindings)
         in case remoteAttempt w sortedFindings of
              Inr r \<Rightarrow> \<lparr> returned = Inr r, findingsAfter = sortedFindings, requests = sent \<rparr>
            | Inl e \<Rightarrow>
                (case fallbackResult sortedFindings of (r, after) \<Rightarrow>
                   \<lparr> returned = Inr r, findingsAfter = after, requests = sent \<rparr>)))"

section \<open>The merge as the specification words it\<close>

text \<open>
  Two risks held by different objects have the same title and file when their titles
  are \<^verbatim>\<open>===\<close> and the files of their originating findings are \<^verbatim>\<open>===\<close>.
\<close>

definition sameTitleAndFile :: "RiskAnalysis \<Rightarrow> RiskAnalysis \<Rightarrow> bool" where
  "sameTitleAndFile t r =
     (strictEq (rprop t ''title'') (rprop r ''title'')
      \<and> originFile (originalFinding t) = originFile (originalFinding r))"

text \<open>
  ``Deduplicate by the pair (title, originating file) keeping first occurrence'': walk
  the list and drop a risk when an earlier one has the same title and file.
\<close>

fun keepFirstOccurrence :: "RiskAnalysis list \<Rightarrow> RiskAnalysis list \<Rightarrow> RiskAnalysis list" where
  "keepFirstOccurrence earlier [] = []"
| "keepFirstOccurrence earlier (r # rs) =
     (if list_ex (\<lambda>t. sameTitleAndFile t r) earlier
      then keepFirstOccurrence (earlier @ [r]) rs
      else r # keepFirstOccurrence (earlier @ [r]) rs)"


section \<open>Sample inputs\<close>

definition lowFinding :: EnrichedFinding where
  "lowFinding =
     \<lparr> ruleId = ''js.eval'', file = ''a.ts'', line = 3, message = ''eval of user input'',
       severity = ''WARNING'', codeSnippet = None, exposureScore = 1 \<rparr>"

definition highFinding :: EnrichedFinding where
  "highFinding =
     \<lparr> ruleId = ''js.sqli'', file = ''b.ts'', line = 7, message = ''SQL injection'',
       severity = ''ERROR'', codeSnippet = Some ''db.query(q)'', exposureScore = 2 \<rparr>"

text \<open>No credential; the service would reject every call.\<close>

definition offline :: world where
  "offline =
     \<lparr> GROQ_API_KEY = None,
       remote = (\<lambda>i payload. Rejected (ApiError (Some 401))),
       jsonParse = (\<lambda>content. None),
       protoNames = (\<lambda>name. False) \<rparr>"


text \<open>
  A credential is set and the service answers every batch with one risk that points at
  the batch's first finding.
\<close>

definition answering :: world where
  "answering =
     \<lparr> GROQ_API_KEY = Some ''gsk_demo'',
       remote = (\<lambda>i payload. Completion (Some ''R'')),
       jsonParse = (\<lambda>content. if content = ''R''
          then Some (JObj [(''risks'', JArr [JObj [(''title'', JStr ''SQL injection''),
                                                  (''confidence'', JStr ''High''),
                                                  (''originalId'', JNum 0)]])])
          else None),
       protoNames = (\<lambda>name. List.member [''constructor'', ''toString'', ''map''] name) \<rparr>"

text \<open>A credential is set and the service rejects every call (quota exceeded).\<close>

definition rejecting :: world where
  "rejecting =
     \<lparr> GROQ_API_KEY = Some ''gsk_demo'',
       remote = (\<lambda>i payload. Rejected (ApiError (Some 429))),
       jsonParse = (\<lambda>content. None),
       protoNames = (\<lambda>name. List.member [''constructor'', ''toString'', ''map''] name) \<rparr>"

text \<open>
  Twenty-one findings, so two batches; the first batch is rejected, the second answered,
  and any further one gets content that is not JSON.
\<close>

definition manyFindings :: "EnrichedFinding list" where
  "manyFindings = replicate 20 highFinding @ [lowFinding]"

definition flaky :: world where
  "flaky =
     \<lparr> GROQ_API_KEY = Some ''gsk_demo'',
       remote = (\<lambda>i payload. if i = 0 then Rejected (ApiError (Some 429))
                              else if i = 1 then Completion (Some ''R'')
                              else Completion (Some ''<html>'')),
       jsonParse = (\<lambda>content. if content = ''R''
          then Some (JObj [(''risks'', JArr [JObj [(''title'', JStr ''Unsafe eval''),
                                                  (''confidence'', JStr ''High''),
                                                  (''originalId'', JNum 0)]])])
          else None),
       protoNames = (\<lambda>name. List.member [''constructor'', ''toString'', ''map''] name) \<rparr>"


text \<open>
  A service that answers with a confidence outside the three levels and with an
  \<^verbatim>\<open>originalId\<close> that is the string \<^verbatim>\<open>length\<close>.
\<close>

definition careless :: world where
  "careless =
     \<lparr> GROQ_API_KEY = Some ''gsk_demo'',
       remote = (\<lambda>i payload. Completion (Some ''R'')),
       jsonParse = (\<lambda>content. if content = ''R''
          then Some (JObj [(''risks'',
                 JArr [ JObj [(''title'', JStr ''Hardcoded secret''),
                              (''confidence'', JStr ''Critical''),
                              (''originalId'', JNum 0)],
                        JObj [(''title'', JStr ''Weak hash''),
                              (''confidence'', JStr ''High''),
                              (''originalId'', JStr ''length'')] ])])
          else None),
       protoNames = (\<lambda>name. List.member [''constructor'', ''toString'', ''map''] name) \<rparr>"


text \<open>A service whose completions have no content.\<close>

definition mute :: world where
  "mute =
     \<lparr> GROQ_API_KEY = Some ''gsk_demo'',
       remote = (\<lambda>i payload. Completion None),
       jsonParse = (\<lambda>content. None),
       protoNames = (\<lambda>name. List.member [''constructor'', ''toString'', ''map''] name) \<rparr>"

text \<open>The risks the sample services report, as \<^verbatim>\<open>prioritizeRisks\<close> builds them.\<close>

definition sqlRisk :: RiskAnalysis where
  "sqlRisk =
     \<lparr> props = [(''title'', JStr ''SQL injection''), (''confidence'', JStr ''High''),
                (''originalId'', JNum 0)],
       originalFinding = FindingRef highFinding \<rparr>"

definition secretRisk :: RiskAnalysis where
  "secretRisk =
     \<lparr> props = [(''title'', JStr ''Hardcoded secret''), (''confidence'', JStr ''Critical''),
                (''originalId'', JNum 0)],
       originalFinding = FindingRef highFinding \<rparr>"

definition hashRisk :: RiskAnalysis where
  "hashRisk =
     \<lparr> props = [(''title'', JStr ''Weak hash''), (''confidence'', JStr ''High''),
                (''originalId'', JStr ''length'')],
       originalFinding = LengthValue 2 \<rparr>"

text \<open>A service that reports twelve risks with different titles for a batch.\<close>

definition verbose :: world where
  "verbose =
     \<lparr> GROQ_API_KEY = Some ''gsk_demo'',
       remote = (\<lambda>i payload. Completion (Some ''R'')),
       jsonParse = (\<lambda>content. if content = ''R''
          then Some (JObj [(''topRisks'',
                 JArr (map (\<lambda>t. JObj [(''title'', JStr t), (''originalId'', JNum 1)])
                        [''a'', ''b'', ''c'', ''d'', ''e'', ''f'', ''g'', ''h'', ''i'', ''j'',
                         ''k'', ''l'']))])
          else None),
       protoNames = (\<lambda>name. List.member [''constructor'', ''toString'', ''map''] name) \<rparr>"


section \<open>Properties of the sort\<close>

lemma insert_by_byExposure:
  "insert_by byExposure x ys = insort_key (\<lambda>f. - exposureScore f) x ys"
  by (induction ys) (auto simp: byExposure_def)

lemma sort_js_byExposure:
  "sort_js byExposure xs = sort_key (\<lambda>f. - exposureScore f) xs"
  by (induction xs) (simp_all add: sort_js_def insert_by_byExposure)

lemma mset_sort_js: "mset (sort_js byExposure xs) = mset xs"
  by (simp add: sort_js_byExposure)

lemma length_sort_js: "length (sort_js byExposure xs) = length xs"
  by (simp add: sort_js_byExposure)

lemma descending_sort_js:
  "sorted_wrt (\<lambda>a b. exposureScore b \<le> exposureScore a) (sort_js byExposure xs)"
proof -
  have "sorted (map (\<lambda>f. - exposureScore f) (sort_key (\<lambda>f. - exposureScore f) xs))"
    by (rule sorted_sort_key)
  then show ?thesis
    by (simp add: sort_js_byExposure sorted_map)
qed

lemma stable_sort_js:
  "filter (\<lambda>f. exposureScore f = k) (sort_js byExposure xs)
   = filter (\<lambda>f. exposureScore f = k) xs"
proof -
  have "filter (\<lambda>f. - exposureScore f = - k) (sort_key (\<lambda>f. - exposureScore f) xs)
        = filter (\<lambda>f. - exposureScore f = - k) xs"
    by (rule sort_key_stable)
  then show ?thesis
    by (simp add: sort_js_byExposure)
qed

lemma sort_js_fixpoint:
  assumes "sorted_wrt (\<lambda>a b. exposureScore b \<le> exposureScore a) xs"
  shows "sort_js byExposure xs = xs"
proof -
  from assms have "sorted (map (\<lambda>f. - exposureScore f) xs)"
    by (simp add: sorted_map)
  then show ?thesis
    by (simp add: sort_js_byExposure sort_key_id_if_sorted)
qed

lemma sort_js_idem: "sort_js byExposure (sort_js byExposure xs) = sort_js byExposure xs"
  by (rule sort_js_fixpoint) (rule descending_sort_js)


section \<open>Properties of the fallback\<close>

lemma fallbackResult_eq:
  "fallbackResult findings =
     (\<lparr> topRisks = map fallbackRisk (take 5 (sort_js byExposure findings)),
        isFallback = Some True \<rparr>,
      sort_js byExposure findings)"
  by (simp add: fallbackResult_def fallbackRanking_def Let_def)

lemma confidence_fallbackRisk: "rprop (fallbackRisk f) ''confidence'' = Some (JStr ''Medium'')"
  by (simp add: rprop_def fallbackRisk_def)

lemma origin_fallbackRisk: "originalFinding (fallbackRisk f) = FindingRef f"
  by (simp add: fallbackRisk_def)

lemma prioritizeRisks_offline:
  assumes "noCredential w"
  shows "prioritizeRisks w findings =
           \<lparr> returned = Inr \<lparr> topRisks = map fallbackRisk (take 5 (sort_js byExposure findings)),
                               isFallback = Some True \<rparr>,
             findingsAfter = sort_js byExposure findings,
             requests = [] \<rparr>"
  using assms by (simp add: prioritizeRisks_def fallbackResult_eq)

text \<open>
  C1.  Without a credential (the variable unset or empty) \<^verbatim>\<open>prioritizeRisks\<close> sends no
  request and returns a result flagged as fallback whose risks are built, one per
  finding and in order, from the first five findings of the input sorted by descending
  exposure score (a stable rearrangement of the input), so there are \<open>min 5 N\<close> of them,
  each with confidence \<^verbatim>\<open>Medium\<close>.
\<close>

theorem fallback_without_credential:
  assumes "noCredential w"
  shows "requests (prioritizeRisks w findings) = [] \<and>
         (\<exists>r sorted.
            returned (prioritizeRisks w findings) = Inr r
          \<and> isFallback r = Some True
          \<and> length (topRisks r) = min 5 (length findings)
          \<and> mset sorted = mset findings
          \<and> sorted_wrt (\<lambda>a b. exposureScore b \<le> exposureScore a) sorted
          \<and> (\<forall>k. filter (\<lambda>f. exposureScore f = k) sorted
                   = filter (\<lambda>f. exposureScore f = k) findings)
          \<and> topRisks r = map fallbackRisk (take 5 sorted)
          \<and> map originalFinding (topRisks r) = map FindingRef (take 5 sorted)
          \<and> (\<forall>risk \<in> set (topRisks r). rprop risk ''confidence'' = Some (JStr ''Medium'')))"
proof -
  let ?s = "sort_js byExposure findings"
  let ?r = "\<lparr> topRisks = map fallbackRisk (take 5 ?s), isFallback = Some True \<rparr>"
  have out: "prioritizeRisks w findings
             = \<lparr> returned = Inr ?r, findingsAfter = ?s, requests = [] \<rparr>"
    using assms by (rule prioritizeRisks_offline)
  have len: "length (topRisks ?r) = min 5 (length findings)"
    by (simp add: length_sort_js min.commute)
  have orig: "map originalFinding (topRisks ?r) = map FindingRef (take 5 ?s)"
    by (simp add: origin_fallbackRisk comp_def)
  have conf: "\<forall>risk \<in> set (topRisks ?r). rprop risk ''confidence'' = Some (JStr ''Medium'')"
    by (auto simp: confidence_fallbackRisk)
  have "returned (prioritizeRisks w findings) = Inr ?r
          \<and> isFallback ?r = Some True
          \<and> length (topRisks ?r) = min 5 (length findings)
          \<and> mset ?s = mset findings
          \<and> sorted_wrt (\<lambda>a b. exposureScore b \<le> exposureScore a) ?s
          \<and> (\<forall>k. filter (\<lambda>f. exposureScore f = k) ?s
                   = filter (\<lambda>f. exposureScore f = k) findings)
          \<and> topRisks ?r = map fallbackRisk (take 5 ?s)
          \<and> map originalFinding (topRisks ?r) = map FindingRef (take 5 ?s)
          \<and> (\<forall>risk \<in> set (topRisks ?r). rprop risk ''confidence'' = Some (JStr ''Medium''))"
    using len orig conf
    by (simp add: out mset_sort_js descending_sort_js stable_sort_js)
  then have "\<exists>r sorted.
            returned (prioritizeRisks w findings) = Inr r
          \<and> isFallback r = Some True
          \<and> length (topRisks r) = min 5 (length findings)
          \<and> mset sorted = mset findings
          \<and> sorted_wrt (\<lambda>a b. exposureScore b \<le> exposureScore a) sorted
          \<and> (\<forall>k. filter (\<lambda>f. exposureScore f = k) sorted
                   = filter (\<lambda>f. exposureScore f = k) findings)
          \<and> topRisks r = map fallbackRisk (take 5 sorted)
          \<and> map originalFinding (topRisks r) = map FindingRef (take 5 sorted)
          \<and> (\<forall>risk \<in> set (topRisks r). rprop risk ''confidence'' = Some (JStr ''Medium''))"
    by blast
  moreover have "requests (prioritizeRisks w findings) = []"
    by (simp add: out)
  ultimately show ?thesis by blast
qed

theorem fallback_without_credential_witness:
  "noCredential offline \<and>
   requests (prioritizeRisks offline [lowFinding, highFinding]) = [] \<and>
   (\<exists>r sorted.
      returned (prioritizeRisks offline [lowFinding, highFinding]) = Inr r
    \<and> isFallback r = Some True
    \<and> length (topRisks r) = min 5 (length [lowFinding, highFinding])
    \<and> mset sorted = mset [lowFinding, highFinding]
    \<and> sorted_wrt (\<lambda>a b. exposureScore b \<le> exposureScore a) sorted
    \<and> (\<forall>k. filter (\<lambda>f. exposureScore f = k) sorted
             = filter (\<lambda>f. exposureScore f = k) [lowFinding, highFinding])
    \<and> topRisks r = map fallbackRisk (take 5 sorted)
    \<and> map originalFinding (topRisks r) = map FindingRef (take 5 sorted)
    \<and> (\<forall>risk \<in> set (topRisks r). rprop risk ''confidence'' = Some (JStr ''Medium'')))"
proof -
  have h: "noCredential offline"
    by (simp add: noCredential_def offline_def)
  from h fallback_without_credential [OF h, of "[lowFinding, highFinding]"]
  show ?thesis by (rule conjI)
qed

section \<open>Properties of the whole function\<close>

lemma prioritizeRisks_online:
  assumes "\<not> noCredential w"
  shows "prioritizeRisks w findings =
     \<lparr> returned = Inr (case remoteAttempt w (sort_js byExposure findings) of
                          Inr r \<Rightarrow> r
                        | Inl e \<Rightarrow> \<lparr> topRisks = map fallbackRisk (take 5 (sort_js byExposure findings)),
                                     isFallback = Some True \<rparr>),
       findingsAfter = sort_js byExposure findings,
       requests = map promptPayload (mkBatchesOf (sort_js byExposure findings)) \<rparr>"
  using assms
  by (simp add: prioritizeRisks_def fallbackResult_eq sort_js_idem Let_def split: sum.splits)

lemma findingsAfter_prioritizeRisks:
  "findingsAfter (prioritizeRisks w findings) = sort_js byExposure findings"
  by (cases "noCredential w") (simp_all add: prioritizeRisks_online prioritizeRisks_offline)

lemma returned_is_value: "\<exists>r. returned (prioritizeRisks w findings) = Inr r"
  by (cases "noCredential w") (simp_all add: prioritizeRisks_online prioritizeRisks_offline)

lemma remoteAttempt_Inr:
  assumes "remoteAttempt w s = Inr r"
  shows "\<exists>u. uniqueRisks (allRisksOf w (mkBatchesOf s)) = Inr u \<and> u \<noteq> []
           \<and> r = \<lparr> topRisks = take 10 u, isFallback = None \<rparr>"
  using assms
  by (auto simp: remoteAttempt_def and_then_def split: sum.splits if_splits)

lemma remoteAttempt_empty:
  assumes "uniqueRisks (allRisksOf w (mkBatchesOf s)) = Inr []"
  shows "remoteAttempt w s = Inl (Error ''No risks identified by AI'')"
  using assms by (simp add: remoteAttempt_def and_then_def)

subsection \<open>Failing batches\<close>

lemma processBatch_failed:
  assumes "batchBody w batch (remote w i (promptPayload batch)) = Inl e"
  shows "processBatch w i batch = []"
  using assms by (simp add: processBatch_def)

lemma batchBody_Rejected: "batchBody w batch (Rejected e) = Inl e"
  by (simp add: batchBody_def)

lemma batchBody_no_content: "batchBody w batch (Completion None) = Inr []"
  by (simp add: batchBody_def)

lemma batchBody_malformed:
  assumes "jsonParse w body = None"
  shows "batchBody w batch (Completion (Some body)) = Inr []
         \<or> batchBody w batch (Completion (Some body)) = Inl SyntaxError"
  using assms by (simp add: batchBody_def)

lemma processBatch_sibling:
  assumes "j \<noteq> i"
  shows "processBatch (w\<lparr> remote := (remote w)(j := other) \<rparr>) i batch = processBatch w i batch"
  using assms
  by (simp add: processBatch_def batchBody_def cong: if_cong split: reply.splits option.splits)

lemma concat_enumerate_nth:
  "concat (map (\<lambda>(i, b). g i b) (enumerate n bs))
   = concat (map (\<lambda>k. g (n + k) (bs ! k)) [0..<length bs])"
proof -
  have "map (\<lambda>(i, b). g i b) (enumerate n bs) = map (\<lambda>k. g (n + k) (bs ! k)) [0..<length bs]"
    by (rule nth_equalityI) (simp_all add: nth_enumerate_eq)
  then show ?thesis by simp
qed

lemma allRisksOf_by_position:
  "allRisksOf w batches = concat (map (\<lambda>k. processBatch w k (batches ! k)) [0..<length batches])"
  using concat_enumerate_nth [of "processBatch w" 0 batches]
  by (simp add: allRisksOf_def)

text \<open>
  C2.  Whatever the remote calls do, \<^verbatim>\<open>prioritizeRisks\<close> returns a result and throws
  nothing.  A batch whose handling throws contributes the empty list, and so does a
  rejected call (authentication, quota, not found, network), a completion without
  content, and content that is not JSON.  The partial list of a batch does not depend on
  the answer given to another batch, and the merged list is the concatenation of the
  partial lists in batch order.
\<close>

theorem prioritizeRisks_never_throws:
  "(\<exists>r. returned (prioritizeRisks w findings) = Inr r)
   \<and> (batchBody w batch (remote w i (promptPayload batch)) = Inl e
        \<longrightarrow> processBatch w i batch = [])
   \<and> (remote w i (promptPayload batch) = Rejected e \<longrightarrow> processBatch w i batch = [])
   \<and> (remote w i (promptPayload batch) = Completion None \<longrightarrow> processBatch w i batch = [])
   \<and> (remote w i (promptPayload batch) = Completion (Some body) \<and> jsonParse w body = None
        \<longrightarrow> processBatch w i batch = [])
   \<and> (j \<noteq> i \<longrightarrow>
        processBatch (w\<lparr> remote := (remote w)(j := other) \<rparr>) i batch = processBatch w i batch)
   \<and> allRisksOf w batches
        = concat (map (\<lambda>k. processBatch w k (batches ! k)) [0..<length batches])"
proof -
  have a: "remote w i (promptPayload batch) = Rejected e \<longrightarrow> processBatch w i batch = []"
    by (simp add: processBatch_def batchBody_Rejected)
  have b: "remote w i (promptPayload batch) = Completion None \<longrightarrow> processBatch w i batch = []"
    by (simp add: processBatch_def batchBody_no_content)
  have c: "remote w i (promptPayload batch) = Completion (Some body) \<and> jsonParse w body = None
        \<longrightarrow> processBatch w i batch = []"
    using batchBody_malformed [of w body batch] by (auto simp: processBatch_def)
  show ?thesis
    using a b c returned_is_value [of w findings] processBatch_failed [of w batch i e]
      processBatch_sibling [of j i w other batch] allRisksOf_by_position [of w batches]
    by blast
qed

theorem prioritizeRisks_never_throws_witness:
  "remote flaky 0 (promptPayload (replicate 20 highFinding)) = Rejected (ApiError (Some 429))
   \<and> batchBody flaky (replicate 20 highFinding)
         (remote flaky 0 (promptPayload (replicate 20 highFinding)))
       = Inl (ApiError (Some 429))
   \<and> processBatch flaky 0 (replicate 20 highFinding) = []
   \<and> remote flaky 2 (promptPayload [lowFinding]) = Completion (Some ''<html>'')
   \<and> jsonParse flaky ''<html>'' = None
   \<and> processBatch flaky 2 [lowFinding] = []
   \<and> remote mute 0 (promptPayload [lowFinding]) = Completion None
   \<and> processBatch mute 0 [lowFinding] = []
   \<and> processBatch (flaky\<lparr> remote := (remote flaky)(0 := (\<lambda>p. Completion (Some ''R''))) \<rparr>)
        1 [lowFinding]
       = processBatch flaky 1 [lowFinding]
   \<and> (\<exists>r. returned (prioritizeRisks flaky manyFindings) = Inr r)
   \<and> mkBatchesOf (sort_js byExposure manyFindings) = [replicate 20 highFinding, [lowFinding]]
   \<and> allRisksOf flaky [replicate 20 highFinding, [lowFinding]]
       = processBatch flaky 0 (replicate 20 highFinding) @ processBatch flaky 1 [lowFinding]"
proof -
  have h0: "remote flaky 0 (promptPayload (replicate 20 highFinding))
            = Rejected (ApiError (Some 429))"
    by (simp add: flaky_def)
  have h1: "batchBody flaky (replicate 20 highFinding)
              (remote flaky 0 (promptPayload (replicate 20 highFinding)))
            = Inl (ApiError (Some 429))"
    by (simp add: h0 batchBody_def)
  have h2: "remote flaky 2 (promptPayload [lowFinding]) = Completion (Some ''<html>'')"
    by (simp add: flaky_def)
  have h3: "jsonParse flaky ''<html>'' = None"
    by (simp add: flaky_def)
  have h4: "remote mute 0 (promptPayload [lowFinding]) = Completion None"
    by (simp add: mute_def)
  have b: "mkBatchesOf (sort_js byExposure manyFindings)
           = [replicate 20 highFinding, [lowFinding]]"
    by code_simp
  have u: "[0..<2] = [0, Suc 0]" by code_simp
  note rejected = prioritizeRisks_never_throws
    [of flaky manyFindings "replicate 20 highFinding" 0 "ApiError (Some 429)" _ 1
        "\<lambda>p. Completion (Some ''R'')" "[replicate 20 highFinding, [lowFinding]]"]
  note sibling = prioritizeRisks_never_throws
    [of flaky manyFindings "[lowFinding]" 1 _ _ 0
        "\<lambda>p. Completion (Some ''R'')" "[replicate 20 highFinding, [lowFinding]]"]
  note malformed = prioritizeRisks_never_throws
    [of flaky manyFindings "[lowFinding]" 2 _ "''<html>''"]
  note silent = prioritizeRisks_never_throws [of mute manyFindings "[lowFinding]" 0]
  from rejected h0 h1 have r0: "processBatch flaky 0 (replicate 20 highFinding) = []"
    by blast
  from malformed h2 h3 have r2: "processBatch flaky 2 [lowFinding] = []"
    by blast
  from silent h4 have r3: "processBatch mute 0 [lowFinding] = []"
    by blast
  from sibling have r1:
    "processBatch (flaky\<lparr> remote := (remote flaky)(0 := (\<lambda>p. Completion (Some ''R''))) \<rparr>)
        1 [lowFinding]
       = processBatch flaky 1 [lowFinding]"
    by simp
  from rejected have r4: "\<exists>r. returned (prioritizeRisks flaky manyFindings) = Inr r"
    by blast
  from rejected u have r5: "allRisksOf flaky [replicate 20 highFinding, [lowFinding]]
       = processBatch flaky 0 (replicate 20 highFinding) @ processBatch flaky 1 [lowFinding]"
    by simp
  from h0 h1 h2 h3 h4 b r0 r1 r2 r3 r4 r5 show ?thesis by blast
qed

text \<open>
  C3 (as amended).  The result is always a value.  When it comes from the deterministic
  fallback (no credential, or the remote attempt ended in an exception) its flag is
  \<^verbatim>\<open>true\<close>.  When it comes from the remote merge the result carries no flag at all:
  the member is absent, which reads as \<^verbatim>\<open>undefined\<close>, not as \<^verbatim>\<open>false\<close>.
\<close>

theorem flag_marks_fallback:
  "\<exists>r. returned (prioritizeRisks w findings) = Inr r
     \<and> (if noCredential w \<or> isl (remoteAttempt w (sort_js byExposure findings))
        then isFallback r = Some True
           \<and> topRisks r = map fallbackRisk (take 5 (sort_js byExposure findings))
        else isFallback r = None
           \<and> remoteAttempt w (sort_js byExposure findings) = Inr r)"
proof (cases "noCredential w")
  case True
  then show ?thesis by (simp add: prioritizeRisks_offline)
next
  case False
  show ?thesis
  proof (cases "remoteAttempt w (sort_js byExposure findings)")
    case (Inl e)
    with False show ?thesis by (simp add: prioritizeRisks_online)
  next
    case (Inr r)
    from remoteAttempt_Inr [OF Inr] have "isFallback r = None" by auto
    with False Inr show ?thesis by (simp add: prioritizeRisks_online)
  qed
qed

theorem flag_marks_fallback_witness:
  "\<not> (noCredential answering
        \<or> isl (remoteAttempt answering (sort_js byExposure [lowFinding, highFinding])))
   \<and> (\<exists>r. returned (prioritizeRisks answering [lowFinding, highFinding]) = Inr r
         \<and> isFallback r = None
         \<and> remoteAttempt answering (sort_js byExposure [lowFinding, highFinding]) = Inr r)"
proof -
  have h: "\<not> (noCredential answering
               \<or> isl (remoteAttempt answering (sort_js byExposure [lowFinding, highFinding])))"
    by code_simp
  from flag_marks_fallback [of answering "[lowFinding, highFinding]"] h
  show ?thesis by auto
qed

text \<open>
  C3 as stated fails: on a successful remote merge the returned flag is not \<^verbatim>\<open>false\<close>;
  the result has no flag.
\<close>

theorem flag_false_on_remote_path_counterexample:
  "returned (prioritizeRisks answering [lowFinding, highFinding])
     = Inr \<lparr> topRisks =
               [\<lparr> props = [(''title'', JStr ''SQL injection''), (''confidence'', JStr ''High''),
                           (''originalId'', JNum 0)],
                  originalFinding = FindingRef highFinding \<rparr>],
             isFallback = None \<rparr>
   \<and> map_sum id isFallback (returned (prioritizeRisks answering [lowFinding, highFinding]))
       \<noteq> Inr (Some False)"
  by code_simp

text \<open>
  C4 (as amended).  \<^verbatim>\<open>prioritizeRisks\<close> sorts the caller's array in place: after the
  call, on every path, it holds the same findings stably rearranged by descending
  exposure score.  It is left as it was exactly when it already was in descending order.
\<close>

theorem caller_array_sorted_in_place:
  "findingsAfter (prioritizeRisks w findings) = sort_js byExposure findings
   \<and> mset (findingsAfter (prioritizeRisks w findings)) = mset findings
   \<and> sorted_wrt (\<lambda>a b. exposureScore b \<le> exposureScore a)
        (findingsAfter (prioritizeRisks w findings))
   \<and> (\<forall>k. filter (\<lambda>f. exposureScore f = k) (findingsAfter (prioritizeRisks w findings))
          = filter (\<lambda>f. exposureScore f = k) findings)
   \<and> ((findingsAfter (prioritizeRisks w findings) = findings)
        = sorted_wrt (\<lambda>a b. exposureScore b \<le> exposureScore a) findings)"
proof -
  have "(sort_js byExposure findings = findings)
        = sorted_wrt (\<lambda>a b. exposureScore b \<le> exposureScore a) findings"
    using descending_sort_js [of findings] sort_js_fixpoint [of findings] by auto
  then show ?thesis
    by (simp add: findingsAfter_prioritizeRisks mset_sort_js descending_sort_js stable_sort_js)
qed

theorem caller_array_sorted_in_place_witness:
  "findingsAfter (prioritizeRisks answering [lowFinding, highFinding]) = [highFinding, lowFinding]"
proof -
  have "sort_js byExposure [lowFinding, highFinding] = [highFinding, lowFinding]"
    by code_simp
  with caller_array_sorted_in_place [of answering "[lowFinding, highFinding]"]
  show ?thesis by simp
qed

text \<open>
  C4 as stated fails on both paths: an input in ascending order comes back reordered.
\<close>

theorem caller_array_unchanged_counterexample:
  "findingsAfter (prioritizeRisks offline [lowFinding, highFinding]) \<noteq> [lowFinding, highFinding]
   \<and> findingsAfter (prioritizeRisks answering [lowFinding, highFinding])
       \<noteq> [lowFinding, highFinding]"
  by code_simp

text \<open>
  C5.  For every input and every behaviour of the remote service the returned result
  holds at most ten risks.
\<close>

theorem topRisks_at_most_ten:
  "\<exists>r. returned (prioritizeRisks w findings) = Inr r \<and> length (topRisks r) \<le> 10"
proof (cases "noCredential w")
  case True
  then show ?thesis by (simp add: prioritizeRisks_offline)
next
  case False
  show ?thesis
  proof (cases "remoteAttempt w (sort_js byExposure findings)")
    case (Inl e)
    with False show ?thesis by (simp add: prioritizeRisks_online)
  next
    case (Inr r)
    from remoteAttempt_Inr [OF Inr] have "length (topRisks r) \<le> 10" by auto
    with False Inr show ?thesis by (simp add: prioritizeRisks_online)
  qed
qed

text \<open>
  C7.  With a credential set, when the merged and deduplicated list is empty the call
  returns the fallback result for the whole input, flagged as fallback: the very result
  \<^verbatim>\<open>fallbackRanking\<close> gives for the caller's findings.
\<close>

theorem empty_merge_falls_back:
  assumes "\<not> noCredential w"
    and "uniqueRisks (allRisksOf w (mkBatchesOf (sort_js byExposure findings))) = Inr []"
  shows "returned (prioritizeRisks w findings)
           = Inr \<lparr> topRisks = map fallbackRisk (take 5 (sort_js byExposure findings)),
                    isFallback = Some True \<rparr>
         \<and> returned (prioritizeRisks w findings) = Inr (fst (fallbackResult findings))"
  using assms
  by (simp add: prioritizeRisks_online remoteAttempt_empty fallbackResult_eq)

theorem empty_merge_falls_back_witness:
  "\<not> noCredential rejecting
   \<and> uniqueRisks (allRisksOf rejecting
        (mkBatchesOf (sort_js byExposure [lowFinding, highFinding]))) = Inr []
   \<and> returned (prioritizeRisks rejecting [lowFinding, highFinding])
       = Inr \<lparr> topRisks = map fallbackRisk (take 5 (sort_js byExposure [lowFinding, highFinding])),
                isFallback = Some True \<rparr>
   \<and> returned (prioritizeRisks rejecting [lowFinding, highFinding])
       = Inr (fst (fallbackResult [lowFinding, highFinding]))"
proof -
  have h1: "\<not> noCredential rejecting" by code_simp
  have h2: "uniqueRisks (allRisksOf rejecting
              (mkBatchesOf (sort_js byExposure [lowFinding, highFinding]))) = Inr []"
    by code_simp
  from empty_merge_falls_back [OF h1 h2] h1 h2 show ?thesis by blast
qed

section \<open>Properties of the parser\<close>

lemma map_throwing_total:
  assumes "\<forall>x \<in> set xs. \<exists>y. f x = Inr y"
  shows "\<exists>ys. map_throwing f xs = Inr ys \<and> length ys = length xs
            \<and> (\<forall>i < length xs. f (xs ! i) = Inr (ys ! i))"
  using assms
proof (induction xs)
  case Nil
  then show ?case by simp
next
  case (Cons x xs)
  then obtain y where y: "f x = Inr y" by auto
  from Cons obtain ys where ys: "map_throwing f xs = Inr ys" "length ys = length xs"
    "\<forall>i < length xs. f (xs ! i) = Inr (ys ! i)" by auto
  have "\<forall>i < length (x # xs). f ((x # xs) ! i) = Inr ((y # ys) ! i)"
    using y ys(3) by (auto simp: nth_Cons split: nat.splits)
  with y ys show ?case by simp
qed

lemma toFinding_shaped:
  assumes "getp r ''start'' = Inr (Some st)" "st \<noteq> JNull"
    and "getp r ''extra'' = Inr (Some ex)" "ex \<noteq> JNull"
  shows "\<exists>f. toFinding r = Inr f
           \<and> getp r ''check_id'' = Inr (Finding.ruleId f)
           \<and> getp r ''path'' = Inr (Finding.file f)
           \<and> getp2 r ''start'' ''line'' = Inr (Finding.line f)
           \<and> getp2 r ''extra'' ''message'' = Inr (Finding.message f)
           \<and> getp2 r ''extra'' ''severity'' = Inr (Finding.severity f)
           \<and> getp2 r ''extra'' ''lines'' = Inr (Finding.codeSnippet f)"
proof -
  have r: "r \<noteq> JNull" using assms(1) by auto
  have g: "\<And>k. \<exists>v. getp r k = Inr v" using r by (cases r) auto
  have gs: "\<And>k. \<exists>v. getp st k = Inr v" using assms(2) by (cases st) auto
  have ge: "\<And>k. \<exists>v. getp ex k = Inr v" using assms(4) by (cases ex) auto
  obtain cid p lno msg sev lns where v:
    "getp r ''check_id'' = Inr cid" "getp r ''path'' = Inr p"
    "getp st ''line'' = Inr lno" "getp ex ''message'' = Inr msg"
    "getp ex ''severity'' = Inr sev" "getp ex ''lines'' = Inr lns"
    using g gs ge by meson
  show ?thesis
    using v assms(1,3) by (simp add: toFinding_def getp2_def and_then_def)
qed


lemma parseBody_results:
  assumes "readFile filePath = Some rawData" "parse rawData = Some doc"
    and "getp doc ''results'' = Inr (Some (JArr rs))"
  shows "parseBody readFile parse filePath = map_throwing toFinding rs"
  using assms by (simp add: parseBody_def and_then_def)

lemma parseBody_invalid:
  assumes "readFile filePath = Some rawData" "parse rawData = Some doc"
    and "getp doc ''results'' = Inr v" "\<not> truthy v \<or> \<not> isArray v"
  shows "parseBody readFile parse filePath = Inl invalidFormat"
  using assms by (auto simp: parseBody_def and_then_def)

lemma parseBody_no_array:
  assumes "readFile filePath = Some rawData" "parse rawData = Some doc"
    and "\<not> (\<exists>rs. getp doc ''results'' = Inr (Some (JArr rs)))"
  shows "\<exists>e. parseBody readFile parse filePath = Inl e"
proof (cases "getp doc ''results''")
  case (Inl e)
  with assms(1,2) show ?thesis by (simp add: parseBody_def and_then_def)
next
  case (Inr v)
  with assms(3) have "\<not> isArray v"
    by (cases v rule: isArray.cases) auto
  with Inr assms(1,2) show ?thesis
    using parseBody_invalid [of readFile filePath rawData parse doc v] by auto
qed

text \<open>
  C8.  When the file can be read, parses as JSON, and its \<^verbatim>\<open>results\<close> member is an
  array of \<open>N\<close> results, each with a \<^verbatim>\<open>start\<close> and an \<^verbatim>\<open>extra\<close> member that are not
  \<^verbatim>\<open>null\<close>, \<^verbatim>\<open>parseFindings\<close> returns \<open>N\<close> findings in input order, the \<open>i\<close>-th
  holding \<^verbatim>\<open>check_id\<close>, \<^verbatim>\<open>path\<close>, \<^verbatim>\<open>start.line\<close>, \<^verbatim>\<open>extra.message\<close>,
  \<^verbatim>\<open>extra.severity\<close> and \<^verbatim>\<open>extra.lines\<close> of the \<open>i\<close>-th result.  When the file
  cannot be read, its content is not JSON, or \<^verbatim>\<open>results\<close> is missing or not an array,
  it throws the parse error (\<^verbatim>\<open>Failed to parse findings file: ...\<close>).
\<close>

theorem parseFindings_contract:
  "(readFile filePath = Some rawData \<and> parse rawData = Some doc
      \<and> getp doc ''results'' = Inr (Some (JArr rs))
      \<and> (\<forall>r \<in> set rs. (\<exists>st. getp r ''start'' = Inr (Some st) \<and> st \<noteq> JNull)
                       \<and> (\<exists>ex. getp r ''extra'' = Inr (Some ex) \<and> ex \<noteq> JNull))
    \<longrightarrow> (\<exists>fs. parseFindings readFile parse filePath = Inr fs
           \<and> length fs = length rs
           \<and> (\<forall>i < length rs.
                  getp (rs ! i) ''check_id'' = Inr (Finding.ruleId (fs ! i))
                \<and> getp (rs ! i) ''path'' = Inr (Finding.file (fs ! i))
                \<and> getp2 (rs ! i) ''start'' ''line'' = Inr (Finding.line (fs ! i))
                \<and> getp2 (rs ! i) ''extra'' ''message'' = Inr (Finding.message (fs ! i))
                \<and> getp2 (rs ! i) ''extra'' ''severity'' = Inr (Finding.severity (fs ! i))
                \<and> getp2 (rs ! i) ''extra'' ''lines'' = Inr (Finding.codeSnippet (fs ! i)))))
   \<and> (readFile filePath = None
        \<longrightarrow> parseFindings readFile parse filePath = Inl (ParseFailure ReadError))
   \<and> (readFile filePath = Some rawData \<and> parse rawData = None
        \<longrightarrow> parseFindings readFile parse filePath = Inl (ParseFailure SyntaxError))
   \<and> (readFile filePath = Some rawData \<and> parse rawData = Some doc
        \<and> getp doc ''results'' = Inr v \<and> (\<not> truthy v \<or> \<not> isArray v)
        \<longrightarrow> parseFindings readFile parse filePath = Inl (ParseFailure invalidFormat))
   \<and> (readFile filePath = Some rawData \<and> parse rawData = Some doc
        \<and> \<not> (\<exists>xs. getp doc ''results'' = Inr (Some (JArr xs)))
        \<longrightarrow> (\<exists>e. parseFindings readFile parse filePath = Inl (ParseFailure e)))"
proof (intro conjI impI)
  assume a: "readFile filePath = Some rawData \<and> parse rawData = Some doc
      \<and> getp doc ''results'' = Inr (Some (JArr rs))
      \<and> (\<forall>r \<in> set rs. (\<exists>st. getp r ''start'' = Inr (Some st) \<and> st \<noteq> JNull)
                       \<and> (\<exists>ex. getp r ''extra'' = Inr (Some ex) \<and> ex \<noteq> JNull))"
  let ?ok = "\<lambda>r f. toFinding r = Inr f
           \<and> getp r ''check_id'' = Inr (Finding.ruleId f)
           \<and> getp r ''path'' = Inr (Finding.file f)
           \<and> getp2 r ''start'' ''line'' = Inr (Finding.line f)
           \<and> getp2 r ''extra'' ''message'' = Inr (Finding.message f)
           \<and> getp2 r ''extra'' ''severity'' = Inr (Finding.severity f)
           \<and> getp2 r ''extra'' ''lines'' = Inr (Finding.codeSnippet f)"
  have each: "\<forall>r \<in> set rs. \<exists>f. ?ok r f"
    using a toFinding_shaped by blast
  then have "\<forall>r \<in> set rs. \<exists>f. toFinding r = Inr f" by blast
  from map_throwing_total [OF this] obtain fs where fs:
    "map_throwing toFinding rs = Inr fs" "length fs = length rs"
    "\<forall>i < length rs. toFinding (rs ! i) = Inr (fs ! i)" by blast
  have "\<forall>i < length rs. ?ok (rs ! i) (fs ! i)"
  proof (intro allI impI)
    fix i assume i: "i < length rs"
    then have "rs ! i \<in> set rs" by simp
    with each obtain f where f: "?ok (rs ! i) f" by blast
    moreover from fs(3) i have "toFinding (rs ! i) = Inr (fs ! i)" by simp
    ultimately have "f = fs ! i" by simp
    with f show "?ok (rs ! i) (fs ! i)" by simp
  qed
  moreover have "parseFindings readFile parse filePath = Inr fs"
    using a fs(1) parseBody_results [of readFile filePath rawData parse doc rs]
    by (simp add: parseFindings_def)
  ultimately show "\<exists>fs. parseFindings readFile parse filePath = Inr fs
           \<and> length fs = length rs
           \<and> (\<forall>i < length rs.
                  getp (rs ! i) ''check_id'' = Inr (Finding.ruleId (fs ! i))
                \<and> getp (rs ! i) ''path'' = Inr (Finding.file (fs ! i))
                \<and> getp2 (rs ! i) ''start'' ''line'' = Inr (Finding.line (fs ! i))
                \<and> getp2 (rs ! i) ''extra'' ''message'' = Inr (Finding.message (fs ! i))
                \<and> getp2 (rs ! i) ''extra'' ''severity'' = Inr (Finding.severity (fs ! i))
                \<and> getp2 (rs ! i) ''extra'' ''lines'' = Inr (Finding.codeSnippet (fs ! i)))"
    using fs(2) by blast
next
  assume "readFile filePath = None"
  then show "parseFindings readFile parse filePath = Inl (ParseFailure ReadError)"
    by (simp add: parseFindings_def parseBody_def)
next
  assume "readFile filePath = Some rawData \<and> parse rawData = None"
  then show "parseFindings readFile parse filePath = Inl (ParseFailure SyntaxError)"
    by (simp add: parseFindings_def parseBody_def)
next
  assume "readFile filePath = Some rawData \<and> parse rawData = Some doc
        \<and> getp doc ''results'' = Inr v \<and> (\<not> truthy v \<or> \<not> isArray v)"
  then show "parseFindings readFile parse filePath = Inl (ParseFailure invalidFormat)"
    using parseBody_invalid [of readFile filePath rawData parse doc v]
    by (auto simp: parseFindings_def)
next
  assume "readFile filePath = Some rawData \<and> parse rawData = Some doc
        \<and> \<not> (\<exists>xs. getp doc ''results'' = Inr (Some (JArr xs)))"
  then show "\<exists>e. parseFindings readFile parse filePath = Inl (ParseFailure e)"
    using parseBody_no_array [of readFile filePath rawData parse doc]
    by (auto simp: parseFindings_def)
qed

theorem parseFindings_contract_witness:
  "parseFindings sampleFiles sampleParse ''findings.json''
     = Inr [ \<lparr> Finding.ruleId = Some (JStr ''js.eval''), Finding.file = Some (JStr ''a.ts''),
               Finding.line = Some (JNum 3), Finding.message = Some (JStr ''found''),
               Finding.severity = Some (JStr ''ERROR''), Finding.codeSnippet = Some (JStr ''eval(x)'') \<rparr>,
             \<lparr> Finding.ruleId = Some (JStr ''js.sqli''), Finding.file = Some (JStr ''b.ts''),
               Finding.line = Some (JNum 7), Finding.message = Some (JStr ''found''),
               Finding.severity = Some (JStr ''ERROR''), Finding.codeSnippet = Some (JStr ''eval(x)'') \<rparr> ]
   \<and> (\<exists>fs. parseFindings sampleFiles sampleParse ''findings.json'' = Inr fs
         \<and> length fs = 2
         \<and> getp2 (sampleResult ''js.sqli'' ''b.ts'' 7) ''start'' ''line''
             = Inr (Finding.line (fs ! 1)))
   \<and> sampleFiles ''absent.json'' = None
   \<and> parseFindings sampleFiles sampleParse ''absent.json'' = Inl (ParseFailure ReadError)
   \<and> sampleFiles ''broken.json'' = Some ''{'' \<and> sampleParse ''{'' = None
   \<and> parseFindings sampleFiles sampleParse ''broken.json'' = Inl (ParseFailure SyntaxError)
   \<and> sampleFiles ''foo.json'' = Some ''{\"foo\": []}''
   \<and> sampleParse ''{\"foo\": []}'' = Some (JObj [(''foo'', JArr [])])
   \<and> getp (JObj [(''foo'', JArr [])]) ''results'' = Inr None
   \<and> parseFindings sampleFiles sampleParse ''foo.json'' = Inl (ParseFailure invalidFormat)
   \<and> sampleFiles ''null.json'' = Some ''null'' \<and> sampleParse ''null'' = Some JNull
   \<and> (\<exists>e. parseFindings sampleFiles sampleParse ''null.json'' = Inl (ParseFailure e))"
proof -
  let ?rs = "[sampleResult ''js.eval'' ''a.ts'' 3, sampleResult ''js.sqli'' ''b.ts'' 7]"
  have r1: "sampleFiles ''findings.json'' = Some ''<two results>''" by code_simp
  have r2: "sampleParse ''<two results>'' = Some (JObj [(''results'', JArr ?rs)])" by code_simp
  have r3: "getp (JObj [(''results'', JArr ?rs)]) ''results'' = Inr (Some (JArr ?rs))" by simp
  have r4: "\<forall>r \<in> set ?rs. (\<exists>st. getp r ''start'' = Inr (Some st) \<and> st \<noteq> JNull)
                       \<and> (\<exists>ex. getp r ''extra'' = Inr (Some ex) \<and> ex \<noteq> JNull)"
    by (simp add: sampleResult_def)
  have a1: "sampleFiles ''absent.json'' = None" by code_simp
  have b1: "sampleFiles ''broken.json'' = Some ''{''" by code_simp
  have b2: "sampleParse ''{'' = None" by code_simp
  have c1: "sampleFiles ''foo.json'' = Some ''{\"foo\": []}''" by code_simp
  have c2: "sampleParse ''{\"foo\": []}'' = Some (JObj [(''foo'', JArr [])])" by code_simp
  have c3: "getp (JObj [(''foo'', JArr [])]) ''results'' = Inr None" by simp
  have d1: "sampleFiles ''null.json'' = Some ''null''" by code_simp
  have d2: "sampleParse ''null'' = Some JNull" by code_simp
  have d3: "\<not> (\<exists>xs. getp JNull ''results'' = Inr (Some (JArr xs)))" by simp
  have ev: "parseFindings sampleFiles sampleParse ''findings.json''
     = Inr [ \<lparr> Finding.ruleId = Some (JStr ''js.eval''), Finding.file = Some (JStr ''a.ts''),
               Finding.line = Some (JNum 3), Finding.message = Some (JStr ''found''),
               Finding.severity = Some (JStr ''ERROR''), Finding.codeSnippet = Some (JStr ''eval(x)'') \<rparr>,
             \<lparr> Finding.ruleId = Some (JStr ''js.sqli''), Finding.file = Some (JStr ''b.ts''),
               Finding.line = Some (JNum 7), Finding.message = Some (JStr ''found''),
               Finding.severity = Some (JStr ''ERROR''), Finding.codeSnippet = Some (JStr ''eval(x)'') \<rparr> ]"
    by code_simp
  note good = parseFindings_contract
    [of sampleFiles "''findings.json''" "''<two results>''" sampleParse
        "JObj [(''results'', JArr ?rs)]" ?rs]
  note absent = parseFindings_contract [of sampleFiles "''absent.json''" _ sampleParse]
  note broken = parseFindings_contract [of sampleFiles "''broken.json''" "''{''" sampleParse]
  note foo = parseFindings_contract
    [of sampleFiles "''foo.json''" "''{\"foo\": []}''" sampleParse "JObj [(''foo'', JArr [])]" _ None]
  from good r1 r2 r3 r4 have
    "\<exists>fs. parseFindings sampleFiles sampleParse ''findings.json'' = Inr fs
         \<and> length fs = 2
         \<and> getp2 (sampleResult ''js.sqli'' ''b.ts'' 7) ''start'' ''line''
             = Inr (Finding.line (fs ! 1))"
    by fastforce
  moreover from absent a1
  have "parseFindings sampleFiles sampleParse ''absent.json'' = Inl (ParseFailure ReadError)"
    by blast
  moreover from broken b1 b2
  have "parseFindings sampleFiles sampleParse ''broken.json'' = Inl (ParseFailure SyntaxError)"
    by blast
  moreover from foo c1 c2 c3
  have "parseFindings sampleFiles sampleParse ''foo.json'' = Inl (ParseFailure invalidFormat)"
    by simp
  moreover from parseFindings_contract [of sampleFiles "''null.json''" "''null''" sampleParse JNull]
    d1 d2 d3
  have "\<exists>e. parseFindings sampleFiles sampleParse ''null.json'' = Inl (ParseFailure e)"
    by blast
  ultimately show ?thesis using ev a1 b1 b2 c1 c2 c3 d1 d2 by blast
qed

section \<open>Properties of a batch and of the merge\<close>

lemma mapRisk_origin:
  assumes "mapRisk inh batch entry = Inr r"
  shows "originalFinding r = batchFirst batch \<or> originTruthy (originalFinding r)"
  using assms
  by (auto simp: mapRisk_def and_then_def Let_def split: sum.splits if_splits)

lemma mapRisk_defined:
  assumes "mapRisk inh batch entry = Inr r" "batch \<noteq> []"
  shows "originalFinding r \<noteq> Undefined"
proof -
  from assms(2) have "batchFirst batch \<noteq> Undefined"
    by (cases batch) (simp_all add: batchFirst_def)
  with mapRisk_origin [OF assms(1)] show ?thesis by auto
qed

lemma map_throwing_preimage:
  assumes "map_throwing f xs = Inr ys" "y \<in> set ys"
  shows "\<exists>x \<in> set xs. f x = Inr y"
  using assms
proof (induction xs arbitrary: ys)
  case Nil
  then show ?case by simp
next
  case (Cons x xs)
  then show ?case by (auto split: sum.splits)
qed

lemma processBatch_entry:
  assumes "r \<in> set (processBatch w i batch)"
  shows "\<exists>body parsed arr entry.
           remote w i (promptPayload batch) = Completion (Some body)
         \<and> jsonParse w body = Some parsed
         \<and> riskArray parsed = Inr arr
         \<and> entry \<in> set (elements arr)
         \<and> mapRisk (protoNames w) batch entry = Inr r"
proof -
  from assms obtain rs where rs:
    "batchBody w batch (remote w i (promptPayload batch)) = Inr rs" "r \<in> set rs"
    by (cases "batchBody w batch (remote w i (promptPayload batch))")
       (auto simp: processBatch_def)
  then obtain body where body: "remote w i (promptPayload batch) = Completion (Some body)"
    by (cases "remote w i (promptPayload batch)")
       (auto simp: batchBody_def split: option.splits)
  with rs obtain parsed where parsed: "jsonParse w body = Some parsed"
    by (cases "jsonParse w body") (auto simp: batchBody_def split: if_splits)
  with rs body obtain arr where arr: "riskArray parsed = Inr arr"
    "map_throwing (mapRisk (protoNames w) batch) (elements arr) = Inr rs"
    by (cases "riskArray parsed") (auto simp: batchBody_def and_then_def split: if_splits)
  from map_throwing_preimage [OF arr(2) rs(2)] body parsed arr(1) show ?thesis by blast
qed

lemma mkBatches_nonempty: "[] \<notin> set (mkBatches i xs)"
proof (induction i xs rule: mkBatches.induct)
  case (1 i xs)
  show ?case
  proof (cases "i < length xs")
    case True
    then have "take BATCH_SIZE (drop i xs) \<noteq> []" by (simp add: BATCH_SIZE_def)
    with 1 True show ?thesis by (subst mkBatches.simps) auto
  next
    case False
    then show ?thesis by (subst mkBatches.simps) simp
  qed
qed

lemma allRisksOf_member:
  assumes "r \<in> set (allRisksOf w batches)"
  shows "\<exists>i < length batches. r \<in> set (processBatch w i (batches ! i))"
  using assms by (auto simp: allRisksOf_by_position)

lemma allRisksOf_defined:
  assumes "[] \<notin> set batches" "r \<in> set (allRisksOf w batches)"
  shows "originalFinding r \<noteq> Undefined"
proof -
  from allRisksOf_member [OF assms(2)] obtain i where i: "i < length batches"
    "r \<in> set (processBatch w i (batches ! i))" by blast
  from i(1) assms(1) have ne: "batches ! i \<noteq> []" by (metis nth_mem)
  from processBatch_entry [OF i(2)] obtain entry where
    "mapRisk (protoNames w) (batches ! i) entry = Inr r" by blast
  from mapRisk_defined [OF this ne] show ?thesis .
qed


lemma originFile_defined:
  assumes "o1 \<noteq> Undefined"
  shows "\<exists>f. originFile o1 = Inr f"
  using assms by (cases o1) auto

lemma sameKey_defined:
  assumes "originalFinding t \<noteq> Undefined" "originalFinding r \<noteq> Undefined"
  shows "sameKey (j, t) (i, r)
         = Inr ((j = i \<or> strictEq (rprop t ''title'') (rprop r ''title''))
                \<and> originFile (originalFinding t) = originFile (originalFinding r))"
proof -
  from assms obtain ft fr where
    "originFile (originalFinding t) = Inr ft" "originFile (originalFinding r) = Inr fr"
    using originFile_defined by blast
  then show ?thesis by (simp add: sameKey_def and_then_def)
qed

lemma findIndex_pure:
  assumes "\<forall>jt \<in> set zs. p jt = Inr (q jt)"
  shows "findIndex p zs = Inr (map_option fst (find q zs))"
  using assms
proof (induction zs)
  case Nil
  then show ?case by simp
next
  case (Cons z zs)
  obtain j t where z: "z = (j, t)" by (cases z)
  with Cons show ?case by simp
qed

lemma filter_throwing_pure:
  assumes "\<forall>x \<in> set xs. p x = Inr (q x)"
  shows "filter_throwing p xs = Inr (filter q xs)"
  using assms by (induction xs) simp_all

text \<open>The test of the filter at position \<open>i\<close>, once no origin is undefined.\<close>

lemma find_over_append:
  "find P (xs @ ys) = (case find P xs of None \<Rightarrow> find P ys | Some x \<Rightarrow> Some x)"
  by (induction xs) simp_all

lemma snd_set_enumerate: "snd ` set (enumerate n xs) = set xs"
  by (metis list.set_map map_snd_enumerate)

lemma find_enumerate_earlier:
  assumes "\<forall>jt \<in> set (enumerate 0 pre). q jt = sameTitleAndFile (snd jt) r"
    and "q (length pre, r)"
  shows "(map_option fst (find q (enumerate 0 (pre @ r # rs))) = Some (length pre))
         = (\<not> list_ex (\<lambda>t. sameTitleAndFile t r) pre)"
proof (cases "find q (enumerate 0 pre)")
  case None
  then have "\<forall>jt \<in> set (enumerate 0 pre). \<not> q jt"
    by (auto simp: find_None_iff)
  with assms(1) have "\<forall>jt \<in> set (enumerate 0 pre). \<not> sameTitleAndFile (snd jt) r"
    by simp
  then have "\<forall>t \<in> snd ` set (enumerate 0 pre). \<not> sameTitleAndFile t r"
    by blast
  then have "\<not> list_ex (\<lambda>t. sameTitleAndFile t r) pre"
    by (simp add: list_ex_iff snd_set_enumerate)
  moreover have "find q (enumerate 0 (pre @ r # rs)) = Some (length pre, r)"
    using None assms(2) by (simp add: enumerate_append_eq find_over_append)
  ultimately show ?thesis by simp
next
  case (Some jt)
  then have in_pre: "jt \<in> set (enumerate 0 pre)" and hit: "q jt"
    by (auto simp: find_Some_iff)
  from in_pre have lt: "fst jt < length pre"
    by (auto simp: in_set_enumerate_eq)
  from in_pre have mem: "snd jt \<in> set pre"
    using snd_set_enumerate [of 0 pre] by force
  from assms(1) in_pre hit have "sameTitleAndFile (snd jt) r" by simp
  with mem have "list_ex (\<lambda>t. sameTitleAndFile t r) pre"
    by (auto simp: list_ex_iff)
  moreover have "find q (enumerate 0 (pre @ r # rs)) = Some jt"
    using Some by (simp add: enumerate_append_eq find_over_append)
  ultimately show ?thesis using lt by simp
qed

lemma filter_enumerate_keepFirst:
  assumes "\<forall>x \<in> set (pre @ rest). originalFinding x \<noteq> Undefined"
  shows "map snd (filter
            (\<lambda>ir. map_option fst
                     (find (\<lambda>jt. (fst jt = fst ir
                                    \<or> strictEq (rprop (snd jt) ''title'') (rprop (snd ir) ''title''))
                                  \<and> originFile (originalFinding (snd jt))
                                      = originFile (originalFinding (snd ir)))
                           (enumerate 0 (pre @ rest)))
                   = Some (fst ir))
            (enumerate (length pre) rest))
         = keepFirstOccurrence pre rest"
  using assms
proof (induction rest arbitrary: pre)
  case Nil
  then show ?case by simp
next
  case (Cons r rs)
  let ?q = "\<lambda>ir jt. (fst jt = fst ir
                        \<or> strictEq (rprop (snd jt) ''title'') (rprop (snd ir) ''title''))
                      \<and> originFile (originalFinding (snd jt))
                          = originFile (originalFinding (snd ir))"
  have earlier: "\<forall>jt \<in> set (enumerate 0 pre).
                   ?q (length pre, r) jt = sameTitleAndFile (snd jt) r"
    by (auto simp: in_set_enumerate_eq sameTitleAndFile_def)
  have self: "?q (length pre, r) (length pre, r)" by simp
  have head: "(map_option fst (find (?q (length pre, r)) (enumerate 0 (pre @ r # rs)))
                = Some (length pre))
              = (\<not> list_ex (\<lambda>t. sameTitleAndFile t r) pre)"
    using find_enumerate_earlier [of pre "?q (length pre, r)" r rs, OF earlier self] .
  have tail: "map snd (filter
            (\<lambda>ir. map_option fst (find (?q ir) (enumerate 0 ((pre @ [r]) @ rs))) = Some (fst ir))
            (enumerate (length (pre @ [r])) rs))
         = keepFirstOccurrence (pre @ [r]) rs"
    using Cons.prems by (intro Cons.IH) simp
  show ?case using head tail by simp
qed

lemma uniqueRisks_keepFirst:
  assumes "\<forall>x \<in> set allRisks. originalFinding x \<noteq> Undefined"
  shows "uniqueRisks allRisks = Inr (keepFirstOccurrence [] allRisks)"
proof -
  let ?self = "enumerate 0 allRisks"
  let ?q = "\<lambda>ir jt. (fst jt = fst ir
                        \<or> strictEq (rprop (snd jt) ''title'') (rprop (snd ir) ''title''))
                      \<and> originFile (originalFinding (snd jt))
                          = originFile (originalFinding (snd ir))"
  have defined: "\<forall>jt \<in> set ?self. originalFinding (snd jt) \<noteq> Undefined"
    using assms snd_set_enumerate [of 0 allRisks] by force
  have key: "\<forall>ir \<in> set ?self. \<forall>jt \<in> set ?self. sameKey jt ir = Inr (?q ir jt)"
  proof (intro ballI)
    fix ir jt assume "ir \<in> set ?self" "jt \<in> set ?self"
    with defined have "originalFinding (snd jt) \<noteq> Undefined" "originalFinding (snd ir) \<noteq> Undefined"
      by auto
    from sameKey_defined [OF this, of "fst jt" "fst ir"] show "sameKey jt ir = Inr (?q ir jt)"
      by simp
  qed
  have test: "\<forall>ir \<in> set ?self.
                and_then (findIndex (\<lambda>jt. sameKey jt ir) ?self) (\<lambda>found. Inr (found = Some (fst ir)))
                = Inr (map_option fst (find (?q ir) ?self) = Some (fst ir))"
  proof
    fix ir assume "ir \<in> set ?self"
    with key have "\<forall>jt \<in> set ?self. sameKey jt ir = Inr (?q ir jt)" by blast
    from findIndex_pure [of ?self "\<lambda>jt. sameKey jt ir" "?q ir", OF this]
    show "and_then (findIndex (\<lambda>jt. sameKey jt ir) ?self) (\<lambda>found. Inr (found = Some (fst ir)))
          = Inr (map_option fst (find (?q ir) ?self) = Some (fst ir))"
      by (simp add: and_then_def)
  qed
  from filter_throwing_pure [of ?self _ "\<lambda>ir. map_option fst (find (?q ir) ?self) = Some (fst ir)", OF test]
  have "uniqueRisks allRisks
        = Inr (map snd (filter (\<lambda>ir. map_option fst (find (?q ir) ?self) = Some (fst ir)) ?self))"
    by (simp add: uniqueRisks_def Let_def and_then_def)
  also have "map snd (filter (\<lambda>ir. map_option fst (find (?q ir) ?self) = Some (fst ir)) ?self)
             = keepFirstOccurrence [] allRisks"
    using filter_enumerate_keepFirst [of "[]" allRisks] assms by simp
  finally show ?thesis .
qed


lemma keepFirst_subset: "set (keepFirstOccurrence pre rest) \<subseteq> set rest"
  by (induction rest arbitrary: pre) auto

lemma pipeline_defined:
  assumes "x \<in> set (allRisksOf w (mkBatchesOf s))"
  shows "originalFinding x \<noteq> Undefined"
proof -
  have "[] \<notin> set (mkBatchesOf s)"
    by (simp add: mkBatchesOf_def mkBatches_nonempty)
  from allRisksOf_defined [OF this assms] show ?thesis .
qed

lemma pipeline_uniqueRisks:
  "uniqueRisks (allRisksOf w (mkBatchesOf s))
   = Inr (keepFirstOccurrence [] (allRisksOf w (mkBatchesOf s)))"
  by (rule uniqueRisks_keepFirst) (simp add: pipeline_defined)

text \<open>Having the title and file of a given risk is a property of a risk alone.\<close>

lemma sameTitleAndFile_trans:
  assumes "sameTitleAndFile u r"
  shows "sameTitleAndFile t u = sameTitleAndFile t r"
  using assms by (auto simp: sameTitleAndFile_def strictEq_def)

lemma count_keepFirst:
  "length (filter (\<lambda>u. sameTitleAndFile u r) (keepFirstOccurrence pre rest))
   = (if list_ex (\<lambda>u. sameTitleAndFile u r) pre then 0
      else if list_ex (\<lambda>u. sameTitleAndFile u r) rest then 1 else 0)"
proof (induction rest arbitrary: pre)
  case Nil
  then show ?case by simp
next
  case (Cons x xs)
  let ?K = "\<lambda>u. sameTitleAndFile u r"
  note ih = Cons.IH [of "pre @ [x]"]
  show ?case
  proof (cases "sameTitleAndFile x r")
    case True
    then have dup: "list_ex (\<lambda>t. sameTitleAndFile t x) pre = list_ex ?K pre"
      by (simp add: sameTitleAndFile_trans)
    from True have after: "length (filter ?K (keepFirstOccurrence (pre @ [x]) xs)) = 0"
      using ih by simp
    show ?thesis
    proof (cases "list_ex ?K pre")
      case seen: True
      with dup after show ?thesis by simp
    next
      case fresh: False
      with dup have "keepFirstOccurrence pre (x # xs) = x # keepFirstOccurrence (pre @ [x]) xs"
        by simp
      with True after fresh show ?thesis by simp
    qed
  next
    case False
    then have "filter ?K (keepFirstOccurrence pre (x # xs))
               = filter ?K (keepFirstOccurrence (pre @ [x]) xs)"
      by simp
    moreover from False have "list_ex ?K (pre @ [x]) = list_ex ?K pre"
      and "list_ex ?K (x # xs) = list_ex ?K xs"
      by simp_all
    ultimately show ?thesis using ih by presburger
  qed
qed

lemma sameTitleAndFile_refl:
  assumes "isPrimitive (rprop r ''title'')"
  shows "sameTitleAndFile r r"
  using assms by (simp add: sameTitleAndFile_def strictEq_def)

lemma keepFirst_positions:
  "keepFirstOccurrence pre rest
   = map snd (filter (\<lambda>ix. \<not> (\<exists>j < fst ix. sameTitleAndFile ((pre @ rest) ! j) (snd ix)))
                     (enumerate (length pre) rest))"
proof (induction rest arbitrary: pre)
  case Nil
  then show ?case by simp
next
  case (Cons x xs)
  have "(\<exists>j < length pre. sameTitleAndFile (pre ! j) x) = (\<exists>t \<in> set pre. sameTitleAndFile t x)"
    by (metis in_set_conv_nth)
  moreover have "(\<exists>j < length pre. sameTitleAndFile ((pre @ x # xs) ! j) x)
                 = (\<exists>j < length pre. sameTitleAndFile (pre ! j) x)"
    by (auto simp: nth_append)
  ultimately have head: "(\<exists>j < length pre. sameTitleAndFile ((pre @ x # xs) ! j) x)
        = list_ex (\<lambda>t. sameTitleAndFile t x) pre"
    by (simp only: list_ex_iff)
  have tail: "keepFirstOccurrence (pre @ [x]) xs
   = map snd (filter (\<lambda>ix. \<not> (\<exists>j < fst ix. sameTitleAndFile ((pre @ x # xs) ! j) (snd ix)))
                     (enumerate (Suc (length pre)) xs))"
    using Cons.IH [of "pre @ [x]"] by simp
  show ?case using tail by (simp add: head [symmetric])
qed

lemma keepFirst_by_index:
  "keepFirstOccurrence [] xs
   = map (\<lambda>i. xs ! i)
       (filter (\<lambda>i. \<not> (\<exists>j < i. sameTitleAndFile (xs ! j) (xs ! i))) [0..<length xs])"
proof -
  have "enumerate 0 xs = map (\<lambda>i. (i, xs ! i)) [0..<length xs]"
    by (rule nth_equalityI) (simp_all add: nth_enumerate_eq)
  then show ?thesis
    using keepFirst_positions [of "[]" xs] by (simp add: filter_map comp_def)
qed

text \<open>
  C6.  In the merge step of \<^verbatim>\<open>prioritizeRisks\<close> the filter over the concatenated
  partial lists never throws and returns exactly the list deduplicated by title and
  originating file, keeping first occurrences: the risks at the positions that have no
  earlier position with the same title and file, in concatenation order.  Hence when two
  different batches report risks with the same (primitive, e.g. string) title and the
  same file, the merged list holds exactly one risk with that title and file.
\<close>

theorem merge_keeps_first_occurrence:
  assumes "batches = mkBatchesOf (sort_js byExposure findings)"
    and "allRisks = allRisksOf w batches"
  shows "uniqueRisks allRisks = Inr (keepFirstOccurrence [] allRisks)
       \<and> keepFirstOccurrence [] allRisks
           = map (\<lambda>k. allRisks ! k)
               (filter (\<lambda>k. \<not> (\<exists>m < k. sameTitleAndFile (allRisks ! m) (allRisks ! k)))
                       [0..<length allRisks])
       \<and> (i < length batches \<and> j < length batches \<and> i \<noteq> j
            \<and> r \<in> set (processBatch w i (batches ! i))
            \<and> r' \<in> set (processBatch w j (batches ! j))
            \<and> isPrimitive (rprop r ''title'')
            \<and> rprop r' ''title'' = rprop r ''title''
            \<and> originFile (originalFinding r') = originFile (originalFinding r)
          \<longrightarrow> length (filter (\<lambda>u. sameTitleAndFile u r) (keepFirstOccurrence [] allRisks)) = 1
            \<and> filter (\<lambda>u. sameTitleAndFile u r') (keepFirstOccurrence [] allRisks)
                = filter (\<lambda>u. sameTitleAndFile u r) (keepFirstOccurrence [] allRisks))"
proof (intro conjI impI)
  show "uniqueRisks allRisks = Inr (keepFirstOccurrence [] allRisks)"
    unfolding assms by (rule pipeline_uniqueRisks)
next
  show "keepFirstOccurrence [] allRisks
           = map (\<lambda>k. allRisks ! k)
               (filter (\<lambda>k. \<not> (\<exists>m < k. sameTitleAndFile (allRisks ! m) (allRisks ! k)))
                       [0..<length allRisks])"
    by (rule keepFirst_by_index)
next
  assume h: "i < length batches \<and> j < length batches \<and> i \<noteq> j
            \<and> r \<in> set (processBatch w i (batches ! i))
            \<and> r' \<in> set (processBatch w j (batches ! j))
            \<and> isPrimitive (rprop r ''title'')
            \<and> rprop r' ''title'' = rprop r ''title''
            \<and> originFile (originalFinding r') = originFile (originalFinding r)"
  then have "r \<in> set allRisks"
    unfolding assms(2) by (auto simp: allRisksOf_by_position)
  moreover from h have "sameTitleAndFile r r" by (simp add: sameTitleAndFile_refl)
  ultimately have "list_ex (\<lambda>u. sameTitleAndFile u r) allRisks"
    by (auto simp: list_ex_iff)
  then show "length (filter (\<lambda>u. sameTitleAndFile u r) (keepFirstOccurrence [] allRisks)) = 1"
    by (simp add: count_keepFirst)
  from h have "sameTitleAndFile r' r"
    by (simp add: sameTitleAndFile_def strictEq_def)
  then have "\<And>u. sameTitleAndFile u r' = sameTitleAndFile u r"
    by (rule sameTitleAndFile_trans)
  then show "filter (\<lambda>u. sameTitleAndFile u r') (keepFirstOccurrence [] allRisks)
                = filter (\<lambda>u. sameTitleAndFile u r) (keepFirstOccurrence [] allRisks)"
    by simp
qed

theorem merge_keeps_first_occurrence_witness:
  "mkBatchesOf (sort_js byExposure (replicate 21 highFinding))
     = [replicate 20 highFinding, [highFinding]]
   \<and> allRisksOf answering [replicate 20 highFinding, [highFinding]] = [sqlRisk, sqlRisk]
   \<and> sqlRisk \<in> set (processBatch answering 0 (replicate 20 highFinding))
   \<and> sqlRisk \<in> set (processBatch answering 1 [highFinding])
   \<and> isPrimitive (rprop sqlRisk ''title'')
   \<and> uniqueRisks [sqlRisk, sqlRisk] = Inr (keepFirstOccurrence [] [sqlRisk, sqlRisk])
   \<and> keepFirstOccurrence [] [sqlRisk, sqlRisk] = [sqlRisk]
   \<and> length (filter (\<lambda>u. sameTitleAndFile u sqlRisk) (keepFirstOccurrence [] [sqlRisk, sqlRisk])) = 1"
proof -
  let ?bs = "[replicate 20 highFinding, [highFinding]]"
  have b: "?bs = mkBatchesOf (sort_js byExposure (replicate 21 highFinding))"
    by code_simp
  have a: "[sqlRisk, sqlRisk] = allRisksOf answering ?bs"
    by code_simp
  have p0: "sqlRisk \<in> set (processBatch answering 0 (?bs ! 0))" by code_simp
  have p1: "sqlRisk \<in> set (processBatch answering 1 (?bs ! 1))" by code_simp
  have prim: "isPrimitive (rprop sqlRisk ''title'')" by code_simp
  have k: "keepFirstOccurrence [] [sqlRisk, sqlRisk] = [sqlRisk]" by code_simp
  note t = merge_keeps_first_occurrence
    [of ?bs "replicate 21 highFinding" "[sqlRisk, sqlRisk]" answering 0 1 sqlRisk sqlRisk, OF b a]
  have hyp: "0 < length ?bs \<and> 1 < length ?bs \<and> (0::nat) \<noteq> 1
            \<and> sqlRisk \<in> set (processBatch answering 0 (?bs ! 0))
            \<and> sqlRisk \<in> set (processBatch answering 1 (?bs ! 1))
            \<and> isPrimitive (rprop sqlRisk ''title'')
            \<and> rprop sqlRisk ''title'' = rprop sqlRisk ''title''
            \<and> originFile (originalFinding sqlRisk) = originFile (originalFinding sqlRisk)"
    using p0 p1 prim by simp
  from t hyp
  have "uniqueRisks [sqlRisk, sqlRisk] = Inr (keepFirstOccurrence [] [sqlRisk, sqlRisk])
        \<and> length (filter (\<lambda>u. sameTitleAndFile u sqlRisk)
                    (keepFirstOccurrence [] [sqlRisk, sqlRisk])) = 1"
    by blast
  moreover from p0 p1 have "sqlRisk \<in> set (processBatch answering 0 (replicate 20 highFinding))"
    and "sqlRisk \<in> set (processBatch answering 1 [highFinding])"
    by simp_all
  ultimately show ?thesis using b a prim k by metis
qed

lemma map_of_rev_filter_key:
  assumes "k \<noteq> x"
  shows "map_of (rev (filter (\<lambda>(k', v). k' \<noteq> x) kvs)) k = map_of (rev kvs) k"
  using assms
proof (induction kvs)
  case Nil
  then show ?case by simp
next
  case (Cons a kvs)
  obtain k' v where a: "a = (k', v)" by (cases a)
  with Cons show ?case by (auto simp: map_add_def split: option.splits)
qed

lemma mapRisk_props:
  assumes "mapRisk inh batch entry = Inr r" "k \<noteq> ''originalFinding''"
  shows "getp entry k = Inr (rprop r k)"
proof -
  from assms(1) have p: "props r = spread entry" and ne: "entry \<noteq> JNull"
    by (auto simp: mapRisk_def and_then_def Let_def split: sum.splits)
  show ?thesis
  proof (cases entry)
    case (JObj kvs)
    with p assms(2) show ?thesis
      by (simp add: rprop_def map_of_rev_filter_key)
  qed (use p ne in \<open>simp_all add: rprop_def\<close>)
qed

text \<open>
  C9 (as amended).  Every risk of a returned result either belongs to a fallback result,
  is one of the risks built from the first five sorted findings and has confidence
  \<^verbatim>\<open>Medium\<close>; or it belongs to a remote result and was built by the mapping function
  from one entry of the risk array in the response to one of the batches sent: it has
  that entry's own members and so carries, unchanged and unchecked, that entry's
  \<^verbatim>\<open>confidence\<close> member (possibly none).  It is one of the three levels only when
  the service answered so.
\<close>

theorem confidence_of_returned_risks:
  assumes "returned (prioritizeRisks w findings) = Inr res"
    and "risk \<in> set (topRisks res)"
  shows "(isFallback res = Some True
          \<and> risk \<in> set (map fallbackRisk (take 5 (sort_js byExposure findings)))
          \<and> rprop risk ''confidence'' = Some (JStr ''Medium''))
       \<or> (isFallback res = None
          \<and> (\<exists>i body parsed arr entry.
                i < length (mkBatchesOf (sort_js byExposure findings))
              \<and> remote w i (promptPayload (mkBatchesOf (sort_js byExposure findings) ! i))
                  = Completion (Some body)
              \<and> jsonParse w body = Some parsed
              \<and> riskArray parsed = Inr arr
              \<and> entry \<in> set (elements arr)
              \<and> mapRisk (protoNames w) (mkBatchesOf (sort_js byExposure findings) ! i) entry
                  = Inr risk
              \<and> props risk = spread entry
              \<and> getp entry ''confidence'' = Inr (rprop risk ''confidence'')))"
proof -
  let ?s = "sort_js byExposure findings"
  let ?fb = "\<lparr> topRisks = map fallbackRisk (take 5 ?s), isFallback = Some True \<rparr>"
  have fallback: "res = ?fb \<Longrightarrow> ?thesis"
  proof -
    assume "res = ?fb"
    with assms(2) have flag: "isFallback res = Some True"
      and mem: "risk \<in> set (map fallbackRisk (take 5 ?s))" by simp_all
    from mem have "rprop risk ''confidence'' = Some (JStr ''Medium'')"
      by (auto simp: confidence_fallbackRisk)
    with flag mem show ?thesis by blast
  qed
  show ?thesis
  proof (cases "noCredential w")
    case True
    with assms(1) have "res = ?fb" by (simp add: prioritizeRisks_offline)
    then show ?thesis by (rule fallback)
  next
    case False
    show ?thesis
    proof (cases "remoteAttempt w ?s")
      case (Inl e)
      with False assms(1) have "res = ?fb" by (simp add: prioritizeRisks_online)
      then show ?thesis by (rule fallback)
    next
      case (Inr r)
      with False assms(1) have "res = r" by (simp add: prioritizeRisks_online)
      with remoteAttempt_Inr [OF Inr] obtain u where u:
        "uniqueRisks (allRisksOf w (mkBatchesOf ?s)) = Inr u"
        "res = \<lparr> topRisks = take 10 u, isFallback = None \<rparr>" by blast
      from u(1) have "u = keepFirstOccurrence [] (allRisksOf w (mkBatchesOf ?s))"
        by (simp add: pipeline_uniqueRisks)
      with u(2) assms(2) have "risk \<in> set (allRisksOf w (mkBatchesOf ?s))"
        using keepFirst_subset [of "[]" "allRisksOf w (mkBatchesOf ?s)"]
        by (auto dest: in_set_takeD)
      from allRisksOf_member [OF this] obtain i where i: "i < length (mkBatchesOf ?s)"
        "risk \<in> set (processBatch w i (mkBatchesOf ?s ! i))" by blast
      from processBatch_entry [OF i(2)] obtain body parsed arr entry where e:
        "remote w i (promptPayload (mkBatchesOf ?s ! i)) = Completion (Some body)"
        "jsonParse w body = Some parsed" "riskArray parsed = Inr arr"
        "entry \<in> set (elements arr)"
        "mapRisk (protoNames w) (mkBatchesOf ?s ! i) entry = Inr risk" by blast
      from mapRisk_props [OF e(5), of "''confidence''"]
      have c: "getp entry ''confidence'' = Inr (rprop risk ''confidence'')" by simp
      from e(5) have p: "props risk = spread entry"
        by (auto simp: mapRisk_def and_then_def Let_def split: sum.splits)
      from i(1) e c p have "\<exists>i body parsed arr entry.
                i < length (mkBatchesOf ?s)
              \<and> remote w i (promptPayload (mkBatchesOf ?s ! i)) = Completion (Some body)
              \<and> jsonParse w body = Some parsed
              \<and> riskArray parsed = Inr arr
              \<and> entry \<in> set (elements arr)
              \<and> mapRisk (protoNames w) (mkBatchesOf ?s ! i) entry = Inr risk
              \<and> props risk = spread entry
              \<and> getp entry ''confidence'' = Inr (rprop risk ''confidence'')"
        by blast
      moreover from u(2) have "isFallback res = None" by simp
      ultimately show ?thesis by blast
    qed
  qed
qed

text \<open>
  At the sample service the returned risk is the one built from the single entry of the
  reply to batch 0; without a credential the returned risks are fallback risks.
\<close>

theorem confidence_of_returned_risks_witness:
  "returned (prioritizeRisks answering [lowFinding, highFinding])
     = Inr \<lparr> topRisks = [sqlRisk], isFallback = None \<rparr>
   \<and> sqlRisk \<in> set (topRisks \<lparr> topRisks = [sqlRisk], isFallback = None \<rparr>)
   \<and> mkBatchesOf (sort_js byExposure [lowFinding, highFinding]) = [[highFinding, lowFinding]]
   \<and> mapRisk (protoNames answering) [highFinding, lowFinding]
        (JObj [(''title'', JStr ''SQL injection''), (''confidence'', JStr ''High''),
               (''originalId'', JNum 0)])
       = Inr sqlRisk
   \<and> (\<exists>i body parsed arr entry.
          i < length (mkBatchesOf (sort_js byExposure [lowFinding, highFinding]))
        \<and> remote answering i
             (promptPayload (mkBatchesOf (sort_js byExposure [lowFinding, highFinding]) ! i))
            = Completion (Some body)
        \<and> jsonParse answering body = Some parsed
        \<and> riskArray parsed = Inr arr
        \<and> entry \<in> set (elements arr)
        \<and> mapRisk (protoNames answering)
             (mkBatchesOf (sort_js byExposure [lowFinding, highFinding]) ! i) entry
            = Inr sqlRisk
        \<and> props sqlRisk = spread entry
        \<and> getp entry ''confidence'' = Inr (rprop sqlRisk ''confidence''))
   \<and> rprop sqlRisk ''confidence'' = Some (JStr ''High'')
   \<and> returned (prioritizeRisks offline [lowFinding, highFinding])
       = Inr \<lparr> topRisks = [fallbackRisk highFinding, fallbackRisk lowFinding],
                isFallback = Some True \<rparr>
   \<and> rprop (fallbackRisk lowFinding) ''confidence'' = Some (JStr ''Medium'')"
proof -
  let ?remote = "\<lparr> topRisks = [sqlRisk], isFallback = None \<rparr>"
  let ?local = "\<lparr> topRisks = [fallbackRisk highFinding, fallbackRisk lowFinding],
                   isFallback = Some True \<rparr>"
  have h1: "returned (prioritizeRisks answering [lowFinding, highFinding]) = Inr ?remote"
    by code_simp
  have h2: "sqlRisk \<in> set (topRisks ?remote)"
    by simp
  have b: "mkBatchesOf (sort_js byExposure [lowFinding, highFinding])
           = [[highFinding, lowFinding]]"
    by code_simp
  have m: "mapRisk (protoNames answering) [highFinding, lowFinding]
        (JObj [(''title'', JStr ''SQL injection''), (''confidence'', JStr ''High''),
               (''originalId'', JNum 0)])
       = Inr sqlRisk"
    by code_simp
  have c: "rprop sqlRisk ''confidence'' = Some (JStr ''High'')"
    by code_simp
  have g1: "returned (prioritizeRisks offline [lowFinding, highFinding]) = Inr ?local"
    by code_simp
  have g2: "fallbackRisk lowFinding \<in> set (topRisks ?local)"
    by simp
  have nf: "isFallback ?remote \<noteq> Some True" and nr: "isFallback ?local \<noteq> None"
    by simp_all
  from confidence_of_returned_risks [OF h1 h2] nf
  have remote_case: "\<exists>i body parsed arr entry.
          i < length (mkBatchesOf (sort_js byExposure [lowFinding, highFinding]))
        \<and> remote answering i
             (promptPayload (mkBatchesOf (sort_js byExposure [lowFinding, highFinding]) ! i))
            = Completion (Some body)
        \<and> jsonParse answering body = Some parsed
        \<and> riskArray parsed = Inr arr
        \<and> entry \<in> set (elements arr)
        \<and> mapRisk (protoNames answering)
             (mkBatchesOf (sort_js byExposure [lowFinding, highFinding]) ! i) entry
            = Inr sqlRisk
        \<and> props sqlRisk = spread entry
        \<and> getp entry ''confidence'' = Inr (rprop sqlRisk ''confidence'')"
    by blast
  from confidence_of_returned_risks [OF g1 g2] nr
  have local_case: "rprop (fallbackRisk lowFinding) ''confidence'' = Some (JStr ''Medium'')"
    by blast
  from h1 h2 b m remote_case c g1 local_case show ?thesis by blast
qed

text \<open>
  C9 as stated fails: a response entry with confidence \<^verbatim>\<open>Critical\<close> is returned as it
  is.
\<close>

theorem confidence_outside_levels_counterexample:
  "returned (prioritizeRisks careless [lowFinding, highFinding])
     = Inr \<lparr> topRisks = [secretRisk, hashRisk], isFallback = None \<rparr>
   \<and> rprop secretRisk ''confidence'' = Some (JStr ''Critical'')
   \<and> rprop secretRisk ''confidence''
       \<notin> {Some (JStr ''High''), Some (JStr ''Medium''), Some (JStr ''Low'')}"
  by code_simp

text \<open>
  C10.  The code at the failing input: an entry whose \<^verbatim>\<open>originalId\<close> is the string
  \<^verbatim>\<open>length\<close> is not a valid index into the batch, yet the batch's first element is not
  substituted: \<^verbatim>\<open>batch["length"]\<close> is the number 2, which is truthy, and becomes the
  \<^verbatim>\<open>originalFinding\<close> of the returned risk.
\<close>

theorem originalId_length_not_substituted:
  "mapRisk (protoNames careless) [highFinding, lowFinding]
     (JObj [(''title'', JStr ''Weak hash''), (''confidence'', JStr ''High''),
            (''originalId'', JStr ''length'')])
     = Inr hashRisk
   \<and> originalFinding hashRisk = LengthValue 2
   \<and> batchFirst [highFinding, lowFinding] = FindingRef highFinding
   \<and> map_sum id (map originalFinding \<circ> topRisks)
        (returned (prioritizeRisks careless [lowFinding, highFinding]))
       = Inr [FindingRef highFinding, LengthValue 2]"
  by code_simp

text \<open>C5 at a service that reports twelve distinct risks: ten are returned.\<close>

theorem topRisks_at_most_ten_witness:
  "(\<exists>r. returned (prioritizeRisks verbose [lowFinding, highFinding]) = Inr r
        \<and> length (topRisks r) \<le> 10)
   \<and> length (allRisksOf verbose (mkBatchesOf (sort_js byExposure [lowFinding, highFinding]))) = 12
   \<and> map_sum id (length \<circ> topRisks) (returned (prioritizeRisks verbose [lowFinding, highFinding]))
       = Inr 10"
proof -
  have "length (allRisksOf verbose (mkBatchesOf (sort_js byExposure [lowFinding, highFinding]))) = 12"
    by code_simp
  moreover have "map_sum id (length \<circ> topRisks)
      (returned (prioritizeRisks verbose [lowFinding, highFinding])) = Inr 10"
    by code_simp
  ultimately show ?thesis
    using topRisks_at_most_ten [of verbose "[lowFinding, highFinding]"] by blast
qed

subsection \<open>What the mapping back to a finding does guarantee\<close>

text \<open>
  The risk array is taken from \<^verbatim>\<open>risks\<close> when that is truthy, else from
  \<^verbatim>\<open>topRisks\<close> when that is truthy, else it is empty.
\<close>

lemma riskArray_either_key:
  "(getp parsed ''risks'' = Inr v \<and> truthy v \<longrightarrow> riskArray parsed = Inr v)
   \<and> (getp parsed ''risks'' = Inr v \<and> \<not> truthy v
        \<and> getp parsed ''topRisks'' = Inr v' \<and> truthy v' \<longrightarrow> riskArray parsed = Inr v')
   \<and> (getp parsed ''risks'' = Inr v \<and> \<not> truthy v
        \<and> getp parsed ''topRisks'' = Inr v' \<and> \<not> truthy v'
        \<longrightarrow> riskArray parsed = Inr (Some (JArr [])))"
  by (simp add: riskArray_def and_then_def)

text \<open>
  For an \<^verbatim>\<open>originalId\<close> that is absent, \<^verbatim>\<open>null\<close>, a boolean or a number, and a
  non-empty batch, the mapping succeeds with the finding at that index when the number is
  a valid index, and with the batch's first finding otherwise.
\<close>

lemma mapRisk_number_or_absent:
  assumes "getp entry ''originalId'' = Inr oid"
    and "oid = None \<or> oid = Some JNull \<or> (\<exists>b. oid = Some (JBool b)) \<or> (\<exists>q. oid = Some (JNum q))"
  shows "\<exists>r. mapRisk inh (first # others) entry = Inr r
           \<and> originalFinding r
               = FindingRef (case oid of
                    Some (JNum q) \<Rightarrow>
                      if 0 \<le> q \<and> of_int \<lfloor>q\<rfloor> = q \<and> nat \<lfloor>q\<rfloor> < Suc (length others)
                      then (first # others) ! nat \<lfloor>q\<rfloor> else first
                  | _ \<Rightarrow> first)"
  using assms
  by (auto simp: mapRisk_def and_then_def toPropertyKey_def batchAt_def batchFirst_def Let_def)

end
